theory Spec2Isabelle
  imports Complex_Main "HOL-Library.Sublist" "HOL-Library.AList"
begin

text \<open>
  An embedding of \<open>Tools/git_commit_agent.py\<close>, a command-line agent that collects the diff
  of a branch or of the staged changes through the git binary, asks a text-generation
  service for a commit message, and prints it. The functions of the agent are translated
  one by one; git, the service, the process environment and the settings files are the
  surroundings a function is given. The definitions come first, then what is proved of them.
\<close>

section \<open>Strings, decimal numbers and the regular expressions of the agent\<close>

text \<open>
  A Python \<open>str\<close> is modelled as a \<open>string\<close>: one \<open>char\<close> per code point, for the code
  points below 256. In that range the class \<open>\d\<close> of Python's \<open>re\<close> is exactly the ten
  ASCII digits, and \<open>str.strip\<close> removes the twelve characters for which \<open>str.isspace\<close> holds.
\<close>

datatype py_error = TypeError | ValueError | IllTyped

definition is_digit :: "char \<Rightarrow> bool" where
  "is_digit c = (c \<in> set ''0123456789'')"

definition is_space :: "char \<Rightarrow> bool" where
  "is_space c = ((of_char c :: nat) \<in> set [9, 10, 11, 12, 13, 28, 29, 30, 31, 32, 133, 160])"

definition strip :: "string \<Rightarrow> string" where
  "strip s = rev (dropWhile is_space (rev (dropWhile is_space s)))"

definition digit_val :: "char \<Rightarrow> int" where
  "digit_val c = int (of_char c) - 48"

text \<open>
  \<open>int(s)\<close> on the strings the agent passes to it, the text captured by \<open>(\d+)\<close>: a non-empty
  run of digits is read in base ten, unless it is longer than the interpreter converts.
  CPython 3.11 and later (and the security releases of 3.7 to 3.10) refuse to convert
  between \<open>str\<close> and \<open>int\<close> in base ten beyond \<open>sys.get_int_max_str_digits()\<close> digits, 4300
  unless the interpreter is started otherwise, and raise \<open>ValueError\<close>; for \<open>int(s)\<close> every
  digit of \<open>s\<close> counts, leading zeros included. The agent never changes the limit. On a
  string that is not a run of digits the model raises \<open>ValueError\<close> too (Python accepts a
  few more, such as a sign or surrounding blanks, which \<open>\d+\<close> never captures).
\<close>

definition max_str_digits :: nat where
  "max_str_digits = 4300"

definition decimal_value :: "string \<Rightarrow> int" where
  "decimal_value s = foldl (\<lambda>a c. 10 * a + digit_val c) 0 s"

definition py_int :: "string \<Rightarrow> py_error + int" where
  "py_int s = (if s \<noteq> [] \<and> list_all is_digit s \<and> length s \<le> max_str_digits
               then Inr (decimal_value s)
               else Inl ValueError)"

text \<open>
  \<open>str(n)\<close> for an integer, as the f-strings of the agent format it: \<open>str_int\<close> is the
  numeral, and \<open>py_str\<close> is the conversion with its limit, a \<open>ValueError\<close> when the numeral
  has more than \<open>max_str_digits\<close> digits (the sign is not counted).
\<close>

definition digit_char :: "nat \<Rightarrow> char" where
  "digit_char d = ''0123456789'' ! d"

function str_nat :: "nat \<Rightarrow> string" where
  "str_nat n = (if n < 10 then [digit_char n] else str_nat (n div 10) @ [digit_char (n mod 10)])"
  by pat_completeness auto
termination
  by (relation "measure (\<lambda>n. n)") auto

declare str_nat.simps [simp del]

definition str_int :: "int \<Rightarrow> string" where
  "str_int i = (if i < 0 then CHR ''-'' # str_nat (nat (- i)) else str_nat (nat i))"

definition py_str :: "int \<Rightarrow> py_error + string" where
  "py_str i = (if length (str_nat (nat \<bar>i\<bar>)) \<le> max_str_digits then Inr (str_int i)
               else Inl ValueError)"

text \<open>The slice \<open>s[:n]\<close>: a negative \<open>n\<close> counts from the end.\<close>

definition slice_to :: "'a list \<Rightarrow> int \<Rightarrow> 'a list" where
  "slice_to s n = (if 0 \<le> n then take (nat n) s else take (length s - nat (- n)) s)"

text \<open>\<open>s.split(sep)\<close> for a one-character separator: always at least one part.\<close>

fun split_on :: "char \<Rightarrow> string \<Rightarrow> string list" where
  "split_on sep [] = [[]]"
| "split_on sep (c # cs) =
     (if c = sep then [] # split_on sep cs
      else (case split_on sep cs of [] \<Rightarrow> [[c]] | p # ps \<Rightarrow> (c # p) # ps))"

text \<open>\<open>s.replace(old, new)\<close> for a non-empty \<open>old\<close>: every occurrence, left to right.\<close>

function replace_all :: "string \<Rightarrow> string \<Rightarrow> string \<Rightarrow> string" where
  "replace_all old new s =
     (if old = [] then s
      else if s = [] then []
      else if prefix old s then new @ replace_all old new (drop (length old) s)
      else hd s # replace_all old new (tl s))"
  by pat_completeness auto
termination
  by (relation "measure (\<lambda>(old, new, s). length s)") auto

declare replace_all.simps [simp del]

subsection \<open>The patterns\<close>

text \<open>
  The five patterns of the agent are sequences of three kinds of item: a literal text, the
  capturing group \<open>(\d+)\<close>, and an optional character such as \<open>s?\<close>. \<open>match_here\<close> is the
  backtracking matcher of \<open>re\<close> anchored at the start of the text: the group is greedy
  (the longest run of digits first, then shorter ones), an optional character is tried
  present before absent. Its result is the text of group 1. \<open>re_search\<close> tries every start
  position from the left, as \<open>re.search\<close> does.
\<close>

datatype rx = Lit string | Digits | Opt char

primrec first_some :: "'a option list \<Rightarrow> 'a option" where
  "first_some [] = None"
| "first_some (x # xs) = (case x of Some y \<Rightarrow> Some y | None \<Rightarrow> first_some xs)"

fun match_here :: "rx list \<Rightarrow> string \<Rightarrow> string \<Rightarrow> string option" where
  "match_here [] s g = Some g"
| "match_here (Lit l # rs) s g =
     (if prefix l s then match_here rs (drop (length l) s) g else None)"
| "match_here (Opt c # rs) s g =
     (case (if s \<noteq> [] \<and> hd s = c then match_here rs (tl s) g else None) of
        Some r \<Rightarrow> Some r
      | None \<Rightarrow> match_here rs s g)"
| "match_here (Digits # rs) s g =
     first_some (map (\<lambda>n. match_here rs (drop n s) (take n s))
                     (rev [1..<Suc (length (takeWhile is_digit s))]))"

fun re_search :: "rx list \<Rightarrow> string \<Rightarrow> string option" where
  "re_search p [] = match_here p [] []"
| "re_search p (c # cs) =
     (case match_here p (c # cs) [] of Some g \<Rightarrow> Some g | None \<Rightarrow> re_search p cs)"

definition ahead_rx :: "rx list" where
  "ahead_rx = [Lit ''ahead '', Digits]"

definition behind_rx :: "rx list" where
  "behind_rx = [Lit ''behind '', Digits]"

definition files_rx :: "rx list" where
  "files_rx = [Digits, Lit '' file'', Opt CHR ''s'', Lit '' changed'']"

definition insertions_rx :: "rx list" where
  "insertions_rx = [Digits, Lit '' insertion'', Opt CHR ''s'']"

definition deletions_rx :: "rx list" where
  "deletions_rx = [Digits, Lit '' deletion'', Opt CHR ''s'']"

text \<open>
  The idiom \<open>m = re.search(p, s); if m: x = int(m.group(1))\<close> with \<open>x\<close> preset to 0.
\<close>

definition count_of :: "rx list \<Rightarrow> string \<Rightarrow> py_error + int" where
  "count_of p s = (case re_search p s of None \<Rightarrow> Inr 0 | Some g \<Rightarrow> py_int g)"

text \<open>
  Three observations on a text and a pattern, used to state what is read. \<open>too_long p s\<close>:
  the pattern matches in \<open>s\<close> and the digits it captures are more than \<open>int\<close> converts.
  \<open>no_count_before marker pre\<close>: no occurrence of the marker followed by a digit begins
  within \<open>pre\<close>, when \<open>pre\<close> is followed by the marker. \<open>number_ends post\<close>: a numeral followed
  by \<open>post\<close> ends there, the next character not being a digit.
\<close>

definition too_long :: "rx list \<Rightarrow> string \<Rightarrow> bool" where
  "too_long p s = (case re_search p s of None \<Rightarrow> False | Some g \<Rightarrow> max_str_digits < length g)"

definition no_count_before :: "string \<Rightarrow> string \<Rightarrow> bool" where
  "no_count_before marker pre =
     list_all (\<lambda>c. \<not> sublist (marker @ [c]) (pre @ marker)) ''0123456789''"

definition number_ends :: "string \<Rightarrow> bool" where
  "number_ends post = (post = [] \<or> \<not> is_digit (hd post))"

section \<open>Tracking information\<close>

definition parse_tracking_info :: "string \<Rightarrow> py_error + (int \<times> int)" where
  "parse_tracking_info track_info =
     (if track_info = [] then Inr (0, 0)
      else (case count_of ahead_rx track_info of
              Inl e \<Rightarrow> Inl e
            | Inr ahead \<Rightarrow>
                (case count_of behind_rx track_info of
                   Inl e \<Rightarrow> Inl e
                 | Inr behind \<Rightarrow> Inr (ahead, behind))))"

section \<open>Data model\<close>

record BranchInfo =
  name :: string
  upstream :: "string option"
  ahead :: int
  behind :: int
  diff_stat :: string
  diff_content :: string
  commit_log :: string
  files_changed :: int
  insertions :: int
  deletions :: int

record Config =
  max_diff_chars :: int
  model :: string
  temperature :: real
  max_retries :: int
  commit_types :: "string list"

section \<open>Effects: output, process exit, exceptions\<close>

text \<open>
  What a function of the agent does besides returning: it prints, it calls the generation
  service, it sleeps, and it may end the process (\<open>sys.exit\<close>) or raise. A computation is the
  list of its events, in order, and its outcome.

  A \<open>message\<close> names a line the agent prints (the texts are given without their emoji):
  \<^item> \<open>GitNotFound\<close>: Error: git command not found. Please install git.
  \<^item> \<open>NoUpstreamWarning b\<close>: Warning: No upstream found for b, skipping...
  \<^item> \<open>MissingApiKey\<close>: Error: ANTHROPIC_API_KEY environment variable not set.
  \<^item> \<open>ApiKeyHint\<close>: Set it with: export ANTHROPIC_API_KEY=...
  \<^item> \<open>RateLimitedWaiting w\<close>: Rate limited. Waiting w s before retry...
  \<^item> \<open>RateLimitExceeded\<close>: Error: Rate limit exceeded after retries.
  \<^item> \<open>ApiErrorReport\<close>: API Error: (the exception)
  \<^item> \<open>UnexpectedError\<close>: Unexpected error: (the exception)
  \<^item> \<open>LoadedConfig p\<close>: Loaded config from: p
  \<^item> \<open>ConfigWarning p\<close>: Warning: Could not load config from p: (the exception)
  \<^item> \<open>AnalyzingBranch b\<close>: Analyzing branch: b...
  \<^item> \<open>BranchNotFound b\<close>: Error: Branch b not found.
  \<^item> \<open>NoUnpushedCommits b\<close>: Branch b has no unpushed commits.
  \<^item> \<open>NoDiffForBranch b\<close>: Error: Could not get diff for branch b.
  \<^item> \<open>SuggestedJson\<close>, \<open>SuggestedHuman\<close>: the result, as a JSON document or as
    \<open>print_branch_info\<close> lays it out.
\<close>

datatype message =
    GitNotFound
  | NoUpstreamWarning string
  | MissingApiKey
  | ApiKeyHint
  | RateLimitedWaiting nat
  | RateLimitExceeded
  | ApiErrorReport
  | UnexpectedError
  | LoadedConfig "string \<times> string"
  | ConfigWarning "string \<times> string"
  | AnalyzingBranch string
  | BranchNotFound string
  | NoUnpushedCommits string
  | NoDiffForBranch string
  | SuggestedJson BranchInfo string
  | SuggestedHuman BranchInfo string

datatype event = Print message | ApiCall nat | Sleep nat

datatype 'a outcome = Ret 'a | Exit int | Raise py_error

type_synonym 'a io = "event list \<times> 'a outcome"

definition io_ret :: "'a \<Rightarrow> 'a io" where
  "io_ret x = ([], Ret x)"

definition io_exit :: "int \<Rightarrow> 'a io" where
  "io_exit n = ([], Exit n)"

definition io_print :: "message \<Rightarrow> unit io" where
  "io_print m = ([Print m], Ret ())"

definition io_after :: "event list \<Rightarrow> 'a io \<Rightarrow> 'a io" where
  "io_after es m = (es @ fst m, snd m)"

definition io_bind :: "'a io \<Rightarrow> ('a \<Rightarrow> 'b io) \<Rightarrow> 'b io" where
  "io_bind m f =
     (case snd m of
        Ret x \<Rightarrow> io_after (fst m) (f x)
      | Exit n \<Rightarrow> (fst m, Exit n)
      | Raise e \<Rightarrow> (fst m, Raise e))"

definition io_then :: "unit io \<Rightarrow> 'b io \<Rightarrow> 'b io" where
  "io_then m k = io_bind m (\<lambda>_. k)"

definition io_lift :: "py_error + 'a \<Rightarrow> 'a io" where
  "io_lift r = (case r of Inl e \<Rightarrow> ([], Raise e) | Inr x \<Rightarrow> io_ret x)"

section \<open>Git operations\<close>

text \<open>
  The repository is seen through the git binary only. \<open>git_env\<close> gives, for an argument
  list, what running the binary does: the binary is missing, or the process completes with
  a return code, its standard output and its standard error. \<open>subprocess_run\<close> is
  \<open>subprocess.run(..., capture_output=True, text=True, check=check)\<close> as Python documents
  it: \<open>CalledProcessError\<close> is raised only when \<open>check\<close> is true and the return code is not
  zero; with \<open>check\<close> false a completed process is returned whatever its return code.
\<close>

datatype proc = NotInstalled | Completed int string string

type_synonym git_env = "string list \<Rightarrow> proc"

datatype run_result =
    CompletedProcess string
  | CalledProcessError string string
  | FileNotFoundError

definition subprocess_run :: "git_env \<Rightarrow> string list \<Rightarrow> bool \<Rightarrow> run_result" where
  "subprocess_run git args check =
     (case git args of
        NotInstalled \<Rightarrow> FileNotFoundError
      | Completed rc out err \<Rightarrow>
          if check \<and> rc \<noteq> 0 then CalledProcessError out err else CompletedProcess out)"

definition run_git :: "git_env \<Rightarrow> string list \<Rightarrow> bool \<Rightarrow> (bool \<times> string) io" where
  "run_git git args check =
     (case subprocess_run git args check of
        CompletedProcess out \<Rightarrow> io_ret (True, strip out)
      | CalledProcessError out err \<Rightarrow>
          if check then io_ret (False, if err \<noteq> [] then strip err else [])
          else io_ret (False, if out \<noteq> [] then strip out else [])
      | FileNotFoundError \<Rightarrow> io_then (io_print GitNotFound) (io_exit 1))"

definition is_git_repo :: "git_env \<Rightarrow> bool io" where
  "is_git_repo git =
     io_bind (run_git git [''rev-parse'', ''--git-dir''] False) (\<lambda>(success, _). io_ret success)"

definition get_repo_root :: "git_env \<Rightarrow> string option io" where
  "get_repo_root git =
     io_bind (run_git git [''rev-parse'', ''--show-toplevel''] False)
       (\<lambda>(success, output). io_ret (if success then Some output else None))"

section \<open>Collecting a diff\<close>

text \<open>
  Local variables that share a name with a field of \<open>BranchInfo\<close> are renamed:
  \<open>stat\<close>, \<open>diff\<close>, \<open>truncated\<close>, \<open>log\<close> and \<open>resolved\<close> stand for \<open>diff_stat\<close>, \<open>diff_content\<close>
  before and after truncation, \<open>commit_log\<close> and \<open>upstream\<close> (\<open>current\<close> while it is being resolved).
  The same five lines truncate the diff in \<open>get_branch_diff\<close> and in \<open>get_staged_changes\<close>;
  the same sixteen lines read the three statistics. Each is one definition here, used by both.
  The f-string of the annotation formats the cap, then the original size; either conversion
  raises \<open>ValueError\<close> beyond the digit limit, after the slice has been taken.
  \<open>truncation_text\<close> is the f-string on the two numerals, \<open>truncation_note\<close> the annotation
  for a cap and a size when both are formatted.
\<close>

definition truncation_text :: "string \<Rightarrow> string \<Rightarrow> string" where
  "truncation_text shown_cap shown_size =
     ''\<newline>\<newline>... [Truncated: showing first '' @ shown_cap @ '' of ''
       @ shown_size @ '' characters]''"

definition truncation_note :: "int \<Rightarrow> nat \<Rightarrow> string" where
  "truncation_note cap original_size =
     truncation_text (str_int cap) (str_int (int original_size))"

definition truncate_diff :: "Config \<Rightarrow> string \<Rightarrow> py_error + string" where
  "truncate_diff config diff =
     (let original_size = length diff in
      if int (length diff) > max_diff_chars config
      then (let kept = slice_to diff (max_diff_chars config) in
            case py_str (max_diff_chars config) of
              Inl e \<Rightarrow> Inl e
            | Inr shown_cap \<Rightarrow>
                (case py_str (int original_size) of
                   Inl e \<Rightarrow> Inl e
                 | Inr shown_size \<Rightarrow> Inr (kept @ truncation_text shown_cap shown_size)))
      else Inr diff)"

definition parse_file_stats :: "string \<Rightarrow> py_error + (int \<times> int \<times> int)" where
  "parse_file_stats stat =
     (case count_of files_rx stat of
        Inl e \<Rightarrow> Inl e
      | Inr fc \<Rightarrow>
          (case count_of insertions_rx stat of
             Inl e \<Rightarrow> Inl e
           | Inr ins \<Rightarrow>
               (case count_of deletions_rx stat of
                  Inl e \<Rightarrow> Inl e
                | Inr del \<Rightarrow> Inr (fc, ins, del))))"

text \<open>\<open>not upstream\<close> for an \<open>Optional[str]\<close>: \<open>None\<close> and the empty string are false.\<close>

definition is_set :: "string option \<Rightarrow> bool" where
  "is_set u = (case u of None \<Rightarrow> False | Some s \<Rightarrow> s \<noteq> [])"

text \<open>
  The loop over the fallback candidates: the first one for which \<open>rev-parse --verify\<close>
  reports success becomes the upstream; otherwise the variable keeps its value.
\<close>

fun try_candidates :: "git_env \<Rightarrow> string option \<Rightarrow> string list \<Rightarrow> string option io" where
  "try_candidates git current [] = io_ret current"
| "try_candidates git current (candidate # rest) =
     io_bind (run_git git [''rev-parse'', ''--verify'', candidate] False)
       (\<lambda>(success, _). if success then io_ret (Some candidate)
                        else try_candidates git current rest)"

definition find_upstream :: "git_env \<Rightarrow> string option \<Rightarrow> string option io" where
  "find_upstream git current =
     (if is_set current then io_ret current
      else io_bind (run_git git [''symbolic-ref'', ''refs/remotes/origin/HEAD''] False)
             (\<lambda>(success, default_branch).
                if success then io_ret (Some (replace_all ''refs/remotes/'' [] default_branch))
                else try_candidates git current
                       [''origin/main'', ''origin/master'', ''main'', ''master'']))"

definition get_branch_diff ::
  "git_env \<Rightarrow> string \<Rightarrow> string option \<Rightarrow> Config \<Rightarrow> BranchInfo option io" where
  "get_branch_diff git branch upstream0 config =
     io_bind (find_upstream git upstream0) (\<lambda>resolved.
       if \<not> is_set resolved
       then io_then (io_print (NoUpstreamWarning branch)) (io_ret None)
       else
         let range = the resolved @ ''..'' @ branch in
         io_bind (run_git git [''diff'', ''--stat'', range] True) (\<lambda>(success, stat).
           if \<not> success then io_ret None
           else io_bind (run_git git [''diff'', range] True) (\<lambda>(success, diff).
             if \<not> success then io_ret None
             else
               io_bind (io_lift (truncate_diff config diff)) (\<lambda>truncated.
                 io_bind (run_git git [''log'', ''--oneline'', range] True) (\<lambda>(success, log).
                   let log = (if \<not> success then [] else log) in
                   io_bind (io_lift (parse_file_stats stat)) (\<lambda>(fc, ins, del).
                     io_bind (run_git git [''for-each-ref'', ''--format=%(upstream:track)'',
                                           ''refs/heads/'' @ branch] True)
                       (\<lambda>(success, track_output).
                         io_bind (io_lift (parse_tracking_info
                                             (if success then track_output else [])))
                           (\<lambda>(a, b). io_ret (Some
                              \<lparr>name = branch, upstream = resolved, ahead = a, behind = b,
                               diff_stat = stat, diff_content = truncated,
                               commit_log = log, files_changed = fc,
                               insertions = ins, deletions = del\<rparr>)))))))))"

definition get_staged_changes :: "git_env \<Rightarrow> Config \<Rightarrow> BranchInfo option io" where
  "get_staged_changes git config =
     io_bind (run_git git [''diff'', ''--cached'', ''--name-only''] True) (\<lambda>(success, status).
       if \<not> success \<or> status = [] then io_ret None
       else io_bind (run_git git [''diff'', ''--cached'', ''--stat''] True)
         (\<lambda>(success, stat).
           if \<not> success then io_ret None
           else io_bind (run_git git [''diff'', ''--cached''] True) (\<lambda>(success, diff).
             if \<not> success then io_ret None
             else
               io_bind (io_lift (truncate_diff config diff)) (\<lambda>truncated.
                 io_bind (run_git git [''branch'', ''--show-current''] True)
                   (\<lambda>(success, current_branch).
                     let branch_name = (if success then current_branch else ''HEAD'') in
                     io_bind (io_lift (parse_file_stats stat)) (\<lambda>(fc, ins, del).
                       io_ret (Some
                         \<lparr>name = branch_name, upstream = None, ahead = 0, behind = 0,
                          diff_stat = stat, diff_content = truncated,
                          commit_log = [], files_changed = fc,
                          insertions = ins, deletions = del\<rparr>)))))))"

section \<open>Generating the message\<close>

text \<open>
  The generation service is an oracle: \<open>api k\<close> is what the call of attempt \<open>k\<close> does. The
  request (model, token budget, temperature, prompt) is built once before the loop and is the
  same at every attempt, so the oracle is indexed by the attempt alone and the prompt text is
  not modelled. A call returns a message with its content blocks, or raises
  \<open>RateLimitError\<close>, another \<open>APIError\<close>, or some other exception. Reading \<open>.text\<close> of a first
  block that has none raises inside the \<open>try\<close> and is caught by \<open>except Exception\<close>.
\<close>

datatype content_block = TextBlock string | OtherBlock

datatype api_response =
    ApiMessage "content_block list"
  | RateLimitError
  | APIError
  | OtherException

type_synonym api = "nat \<Rightarrow> api_response"

function retry_loop :: "api \<Rightarrow> int \<Rightarrow> nat \<Rightarrow> string option io" where
  "retry_loop api retries attempt =
     (if int attempt < retries then
        (case api attempt of
           ApiMessage content \<Rightarrow>
             (case content of
                [] \<Rightarrow> io_after [ApiCall attempt] (retry_loop api retries (Suc attempt))
              | TextBlock t # _ \<Rightarrow> io_after [ApiCall attempt] (io_ret (Some (strip t)))
              | OtherBlock # _ \<Rightarrow>
                  io_after [ApiCall attempt, Print UnexpectedError] (io_ret None))
         | RateLimitError \<Rightarrow>
             (if int attempt < retries - 1
              then io_after [ApiCall attempt, Print (RateLimitedWaiting (2 ^ attempt)),
                             Sleep (2 ^ attempt)]
                     (retry_loop api retries (Suc attempt))
              else io_after [ApiCall attempt, Print RateLimitExceeded] (io_ret None))
         | APIError \<Rightarrow> io_after [ApiCall attempt, Print ApiErrorReport] (io_ret None)
         | OtherException \<Rightarrow> io_after [ApiCall attempt, Print UnexpectedError] (io_ret None))
      else io_ret None)"
  by pat_completeness auto
termination
  by (relation "measure (\<lambda>(api, retries, attempt). nat retries - attempt)") auto

declare retry_loop.simps [simp del]

definition generate_commit_message ::
  "(string \<rightharpoonup> string) \<Rightarrow> api \<Rightarrow> BranchInfo \<Rightarrow> Config \<Rightarrow> string option io" where
  "generate_commit_message environ api branch_info config =
     (if \<not> is_set (environ ''ANTHROPIC_API_KEY'')
      then io_after [Print MissingApiKey, Print ApiKeyHint] (io_ret None)
      else retry_loop api (max_retries config) 0)"

text \<open>
  Two observations on a list of events: which of them are calls of the service, and the
  events of the attempts \<open>a, \<dots>, n - 1\<close> when each of them is rate limited and is not the
  last one allowed: the call, the notice, and the sleep of \<open>2 ^ attempt\<close> seconds.
\<close>

fun is_api_call :: "event \<Rightarrow> bool" where
  "is_api_call (ApiCall k) = True"
| "is_api_call _ = False"

definition rate_limited_attempts :: "nat \<Rightarrow> nat \<Rightarrow> event list" where
  "rate_limited_attempts a n =
     concat (map (\<lambda>k. [ApiCall k, Print (RateLimitedWaiting (2 ^ k)), Sleep (2 ^ k)]) [a..<n])"

section \<open>Configuration\<close>

text \<open>
  The values a settings mapping holds. A dictionary is an association list in insertion
  order with distinct keys; \<open>d[k] = v\<close> is \<open>AList.update\<close>. The literal \<open>0.7\<close> stands for
  itself: no arithmetic is done on the temperature. No statement of the agent changes a
  list, so a list is a value; dictionaries are objects in a store, since \<open>load_config\<close>
  copies one and updates the copy.
\<close>

datatype pyval =
    PNone
  | PBool bool
  | PInt int
  | PFloat real
  | PStr string
  | PList "pyval list"
  | PDict "(pyval \<times> pyval) list"

type_synonym pydict = "(pyval \<times> pyval) list"

definition DEFAULT_CONFIG :: pydict where
  "DEFAULT_CONFIG =
     [(PStr ''max_diff_chars'', PInt 50000),
      (PStr ''model'', PStr ''claude-sonnet-4-5-20250929''),
      (PStr ''temperature'', PFloat (7 / 10)),
      (PStr ''max_retries'', PInt 3),
      (PStr ''commit_types'',
         PList [PStr ''feat'', PStr ''fix'', PStr ''docs'', PStr ''style'', PStr ''refactor'',
                PStr ''test'', PStr ''chore'', PStr ''perf'', PStr ''ci'', PStr ''build''])]"

text \<open>
  \<open>Config(**d)\<close>: a \<open>TypeError\<close> unless the keys of \<open>d\<close> are exactly the five field names.
  Python stores the values unchecked; the record is typed as the dataclass annotates it, so
  a value of another type ends the model with \<open>IllTyped\<close> (it is not a Python exception).
\<close>

definition field_names :: "pyval list" where
  "field_names = [PStr ''max_diff_chars'', PStr ''model'', PStr ''temperature'',
                  PStr ''max_retries'', PStr ''commit_types'']"

fun the_strs :: "pyval list \<Rightarrow> string list option" where
  "the_strs [] = Some []"
| "the_strs (PStr s # vs) = (case the_strs vs of None \<Rightarrow> None | Some ss \<Rightarrow> Some (s # ss))"
| "the_strs (_ # vs) = None"

definition Config_kwargs :: "pydict \<Rightarrow> Config outcome" where
  "Config_kwargs d =
     (if set (map fst d) \<noteq> set field_names then Raise TypeError
      else
        (case (map_of d (PStr ''max_diff_chars''), map_of d (PStr ''model''),
               map_of d (PStr ''temperature''), map_of d (PStr ''max_retries''),
               map_of d (PStr ''commit_types'')) of
           (Some (PInt cap), Some (PStr m), Some (PFloat t), Some (PInt r), Some (PList cts)) \<Rightarrow>
             (case the_strs cts of
                Some types \<Rightarrow>
                  Ret \<lparr>max_diff_chars = cap, model = m, temperature = t, max_retries = r,
                       commit_types = types\<rparr>
              | None \<Rightarrow> Raise IllTyped)
         | _ \<Rightarrow> Raise IllTyped))"

text \<open>
  The store of dictionary objects: an address is an index. The module keeps
  \<open>DEFAULT_CONFIG\<close> at \<open>DEFAULT_ADDR\<close>. \<open>dict_copy\<close> is \<open>d.copy()\<close>: a new object with the
  same items. \<open>dict_update\<close> is what \<open>d.update(other)\<close> stores: the items of \<open>other\<close>, in
  order, each by \<open>d[k] = v\<close>.
\<close>

type_synonym store = "pydict list"

definition DEFAULT_ADDR :: nat where
  "DEFAULT_ADDR = 0"

definition dict_copy :: "store \<Rightarrow> nat \<Rightarrow> nat \<times> store" where
  "dict_copy st a = (length st, st @ [st ! a])"

definition dict_update :: "store \<Rightarrow> nat \<Rightarrow> pydict \<Rightarrow> store" where
  "dict_update st a items = st[a := foldl (\<lambda>d (k, v). AList.update k v d) (st ! a) items]"

text \<open>
  A settings file, as the body of the \<open>try\<close> sees it. It is absent (\<open>exists()\<close> is false); or
  \<open>open\<close> or \<open>yaml.safe_load\<close> raises; or the document is false (an empty file, an empty
  mapping) and \<open>if user_config\<close> skips it; or \<open>update\<close> stores the document's items and
  returns (a mapping); or \<open>update\<close> stores some items and raises (a document that is not a
  mapping: none for a scalar, the pairs before the offending element for a list).
  A path is the directory and the file name that \<open>Path(dir) / name\<close> joins.
\<close>

datatype yaml_doc = Falsy | Updates pydict | UpdateFails pydict

datatype file_state = Absent | Unreadable | Holds yaml_doc

type_synonym path = "string \<times> string"

fun load_first :: "(path \<Rightarrow> file_state) \<Rightarrow> store \<Rightarrow> nat \<Rightarrow> path list \<Rightarrow> event list \<times> store" where
  "load_first files st config_dict [] = ([], st)"
| "load_first files st config_dict (config_path # rest) =
     (case files config_path of
        Absent \<Rightarrow> load_first files st config_dict rest
      | Unreadable \<Rightarrow>
          (case load_first files st config_dict rest of
             (es, st') \<Rightarrow> (Print (ConfigWarning config_path) # es, st'))
      | Holds Falsy \<Rightarrow> load_first files st config_dict rest
      | Holds (Updates items) \<Rightarrow>
          ([Print (LoadedConfig config_path)], dict_update st config_dict items)
      | Holds (UpdateFails items) \<Rightarrow>
          (case load_first files (dict_update st config_dict items) config_dict rest of
             (es, st') \<Rightarrow> (Print (ConfigWarning config_path) # es, st')))"

definition config_file_name :: string where
  "config_file_name = ''.git-commit-agent.yaml''"

definition load_config ::
  "bool \<Rightarrow> git_env \<Rightarrow> string \<Rightarrow> (path \<Rightarrow> file_state) \<Rightarrow> store \<Rightarrow> store \<times> Config io" where
  "load_config yaml_available git home files st =
     (case dict_copy st DEFAULT_ADDR of
        (config_dict, st1) \<Rightarrow>
          if \<not> yaml_available then (st1, ([], Config_kwargs (st1 ! config_dict)))
          else
            (case get_repo_root git of
               (es, Exit n) \<Rightarrow> (st1, (es, Exit n))
             | (es, Raise e) \<Rightarrow> (st1, (es, Raise e))
             | (es, Ret repo_root) \<Rightarrow>
                 let config_paths =
                       (if is_set repo_root then [(the repo_root, config_file_name)] else [])
                       @ [(home, config_file_name)]
                 in (case load_first files st1 config_dict config_paths of
                       (es', st2) \<Rightarrow> (st2, (es @ es', Config_kwargs (st2 ! config_dict))))))"

text \<open>Any number of loads, one after the other, each in its own surroundings.\<close>

fun load_many ::
  "(bool \<times> git_env \<times> string \<times> (path \<Rightarrow> file_state)) list \<Rightarrow> store \<Rightarrow> store" where
  "load_many [] st = st"
| "load_many ((yaml_available, git, home, files) # rest) st =
     load_many rest (fst (load_config yaml_available git home files st))"

section \<open>The entry point, for a named branch\<close>

text \<open>
  The block \<open>if args.branch:\<close> of \<open>main\<close>, which runs when \<open>--staged\<close> is not given and the
  branch name is not empty, after the repository check and \<open>load_config\<close>. Every path
  through it ends the process, so its outcome is an exit status. \<open>tracked\<close> is the local
  variable \<open>upstream\<close>; the result is printed as JSON or by \<open>print_branch_info\<close>.
\<close>

definition main_branch ::
  "git_env \<Rightarrow> (string \<rightharpoonup> string) \<Rightarrow> api \<Rightarrow> Config \<Rightarrow> string \<Rightarrow> bool \<Rightarrow> unit io" where
  "main_branch git environ api config branch json =
     io_then (if \<not> json then io_print (AnalyzingBranch branch) else io_ret ())
       (io_bind (run_git git [''for-each-ref'',
                              ''--format=%(upstream:short)|%(upstream:track)'',
                              ''refs/heads/'' @ branch] True)
         (\<lambda>(success, output).
            if \<not> success then io_then (io_print (BranchNotFound branch)) (io_exit 1)
            else
              let parts = split_on CHR ''|'' output;
                  tracked = (if hd parts \<noteq> [] then Some (hd parts) else None);
                  track_info = (if length parts > 1 then parts ! 1 else [])
              in io_bind (io_lift (parse_tracking_info track_info)) (\<lambda>(a, b).
                   if a = 0 then io_then (io_print (NoUnpushedCommits branch)) (io_exit 0)
                   else io_bind (get_branch_diff git branch tracked config) (\<lambda>branch_info.
                     case branch_info of
                       None \<Rightarrow> io_then (io_print (NoDiffForBranch branch)) (io_exit 1)
                     | Some info \<Rightarrow>
                         io_bind (generate_commit_message environ api info config)
                           (\<lambda>commit_message.
                              if \<not> is_set commit_message then io_exit 1
                              else io_then
                                     (io_print (if json
                                                then SuggestedJson info (the commit_message)
                                                else SuggestedHuman info (the commit_message)))
                                     (io_exit 0))))))"

section \<open>Example surroundings\<close>

text \<open>
  Concrete repositories and settings at which the theorems below are instantiated.
  \<open>staged_git\<close> has one staged file whose diff is eight characters long; \<open>branch_git\<close> has a
  branch \<open>feature\<close> one commit ahead of \<open>origin/main\<close> with the same diff; in
  \<open>fallback_git\<close> the remote has no symbolic default branch while \<open>origin/main\<close> exists.
  \<open>long_stat_git\<close> is \<open>staged_git\<close> with a summary whose file count is written with 4301
  digits.
  \<open>missing_branch_git\<close> answers every command with status 0 and no output, as git answers
  \<open>for-each-ref\<close> for a pattern that matches no ref. \<open>key_environ\<close> holds a credential;
  \<open>always_rate_limited\<close> and \<open>error_after_one\<close> are two behaviours of the service.
  \<open>no_files\<close> has no settings file; \<open>override_files\<close> has one in the home directory that
  sets \<open>max_retries\<close> to 5.
\<close>

definition example_config :: "int \<Rightarrow> Config" where
  "example_config cap =
     \<lparr>max_diff_chars = cap, model = ''m'', temperature = 7 / 10, max_retries = 3,
      commit_types = [''feat'', ''fix'']\<rparr>"

definition staged_git :: git_env where
  "staged_git args =
     (if args = [''diff'', ''--cached'', ''--name-only''] then Completed 0 ''a.txt'' []
      else if args = [''diff'', ''--cached'', ''--stat'']
        then Completed 0 '' 1 file changed, 8 insertions(+)'' []
      else if args = [''diff'', ''--cached''] then Completed 0 ''abcdefgh'' []
      else if args = [''branch'', ''--show-current''] then Completed 0 ''main'' []
      else Completed 1 [] ''unexpected'')"

definition long_stat_git :: git_env where
  "long_stat_git args =
     (if args = [''diff'', ''--cached'', ''--stat'']
        then Completed 0 (replicate 4301 CHR ''0'' @ '' files changed'') []
      else staged_git args)"

definition branch_git :: git_env where
  "branch_git args =
     (if args = [''diff'', ''--stat'', ''origin/main..feature'']
        then Completed 0 '' 2 files changed, 20 insertions(+), 3 deletions(-)'' []
      else if args = [''diff'', ''origin/main..feature''] then Completed 0 ''abcdefgh'' []
      else if args = [''log'', ''--oneline'', ''origin/main..feature'']
        then Completed 0 ''abc123 Add feature'' []
      else if args = [''for-each-ref'', ''--format=%(upstream:track)'', ''refs/heads/feature'']
        then Completed 0 ''[ahead 1]'' []
      else if args = [''for-each-ref'', ''--format=%(upstream:short)|%(upstream:track)'',
                      ''refs/heads/feature'']
        then Completed 0 ''origin/main|[ahead 1]'' []
      else Completed 128 [] ''fatal'')"

definition fallback_git :: git_env where
  "fallback_git args =
     (if args = [''symbolic-ref'', ''refs/remotes/origin/HEAD'']
        then Completed 128 [] ''fatal: ref refs/remotes/origin/HEAD is not a symbolic ref''
      else if args = [''rev-parse'', ''--verify'', ''origin/main'']
        then Completed 0 ''4b825dc642cb6eb9a060e54bf8d69288fbee4904'' []
      else branch_git args)"

definition no_files :: "path \<Rightarrow> file_state" where
  "no_files p = Absent"

definition override_files :: "path \<Rightarrow> file_state" where
  "override_files p =
     (if p = (''/home/u'', ''.git-commit-agent.yaml'')
      then Holds (Updates [(PStr ''max_retries'', PInt 5)])
      else Absent)"

definition example_info :: BranchInfo where
  "example_info =
     \<lparr>name = ''feature'', upstream = Some ''origin/main'', ahead = 1, behind = 0,
      diff_stat = ''2 files changed, 20 insertions(+), 3 deletions(-)'',
      diff_content = ''abcdefgh'', commit_log = ''abc123 Add feature'',
      files_changed = 2, insertions = 20, deletions = 3\<rparr>"

definition key_environ :: "string \<rightharpoonup> string" where
  "key_environ = [''ANTHROPIC_API_KEY'' \<mapsto> ''sk-test'']"

definition always_rate_limited :: api where
  "always_rate_limited k = RateLimitError"

definition error_after_one :: api where
  "error_after_one k = (if k < 1 then RateLimitError else APIError)"

definition missing_branch_git :: git_env where
  "missing_branch_git args = Completed 0 [] []"

section \<open>Decimal numbers and pattern matching: basic facts\<close>

lemma lt10_cases: "d < 10 \<Longrightarrow> d \<in> set [0, 1, 2, 3, 4, 5, 6, 7, 8, 9::nat]"
  by (simp; arith)

lemma is_digit_digit_char: "d < 10 \<Longrightarrow> is_digit (digit_char d)"
  by (drule lt10_cases) (auto simp: is_digit_def digit_char_def)

lemma digit_val_digit_char: "d < 10 \<Longrightarrow> digit_val (digit_char d) = int d"
  by (drule lt10_cases) (auto simp: digit_val_def digit_char_def)

lemma str_nat_digits: "list_all is_digit (str_nat n)"
proof (induction n rule: str_nat.induct)
  case (1 n)
  show ?case
  proof (cases "n < 10")
    case True
    then show ?thesis by (subst str_nat.simps) (simp add: is_digit_digit_char)
  next
    case False
    with 1 show ?thesis
      by (subst str_nat.simps) (simp add: is_digit_digit_char)
  qed
qed

lemma str_nat_nonempty: "str_nat n \<noteq> []"
  by (subst str_nat.simps) simp

lemma decimal_value_str_nat: "decimal_value (str_nat n) = int n"
proof (induction n rule: str_nat.induct)
  case (1 n)
  show ?case
  proof (cases "n < 10")
    case True
    then show ?thesis
      by (subst str_nat.simps) (simp add: decimal_value_def digit_val_digit_char)
  next
    case False
    with 1 have "foldl (\<lambda>a c. 10 * a + digit_val c) 0 (str_nat (n div 10)) = int (n div 10)"
      by (simp add: decimal_value_def)
    with False show ?thesis
      by (subst str_nat.simps)
        (simp add: decimal_value_def digit_val_digit_char zdiv_int zmod_int)
  qed
qed

lemma py_int_str_nat:
  "length (str_nat n) \<le> max_str_digits \<Longrightarrow> py_int (str_nat n) = Inr (int n)"
  by (simp add: py_int_def str_nat_digits str_nat_nonempty decimal_value_str_nat)

lemma py_int_long: "max_str_digits < length d \<Longrightarrow> py_int d = Inl ValueError"
  by (simp add: py_int_def)

lemma takeWhile_run:
  assumes "list_all P ds" and "post = [] \<or> \<not> P (hd post)"
  shows "takeWhile P (ds @ post) = ds"
  using assms by (cases post) (auto simp: list_all_iff takeWhile_append2 intro: takeWhile_eq_all_conv[THEN iffD2])

lemma match_lit_digits:
  "match_here [Lit l, Digits] s g =
     (if prefix l s \<and> takeWhile is_digit (drop (length l) s) \<noteq> []
      then Some (takeWhile is_digit (drop (length l) s)) else None)"
proof -
  let ?t = "drop (length l) s"
  let ?m = "length (takeWhile is_digit ?t)"
  have "take ?m ?t = takeWhile is_digit ?t"
    by (metis takeWhile_eq_take)
  then show ?thesis
    by (cases "?m") auto
qed

lemma digit_val_nonneg: "is_digit c \<Longrightarrow> 0 \<le> digit_val c"
  by (auto simp: is_digit_def digit_val_def)

lemma foldl_digits_nonneg:
  "list_all is_digit s \<Longrightarrow> 0 \<le> a \<Longrightarrow> 0 \<le> foldl (\<lambda>a c. 10 * a + digit_val c) a s"
  by (induction s arbitrary: a) (auto simp: digit_val_nonneg)

lemma py_int_digits:
  "d \<noteq> [] \<Longrightarrow> list_all is_digit d \<Longrightarrow> length d \<le> max_str_digits \<Longrightarrow>
     py_int d = Inr (decimal_value d) \<and> 0 \<le> decimal_value d"
  by (simp add: py_int_def decimal_value_def foldl_digits_nonneg)

lemma re_search_absent:
  "\<not> sublist l s \<Longrightarrow> re_search [Lit l, Digits] s = None"
proof (induction s)
  case Nil
  then show ?case by (auto simp: match_lit_digits)
next
  case (Cons c cs)
  from Cons.prems have np: "\<not> prefix l (c # cs)" and "\<not> sublist l cs"
    by (simp_all add: sublist_Cons_right)
  with Cons.IH show ?case
    by (simp add: match_lit_digits)
qed

lemma re_search_hit: "match_here p s [] = Some g \<Longrightarrow> re_search p s = Some g"
  by (cases s) auto

lemma no_count_before_iff:
  "no_count_before l pre \<longleftrightarrow> (\<forall>x. is_digit x \<longrightarrow> \<not> sublist (l @ [x]) (pre @ l))"
  unfolding no_count_before_def is_digit_def list_all_iff Ball_def by (rule refl)

lemma no_count_before_Cons: "no_count_before l (c # pre) \<Longrightarrow> no_count_before l pre"
  by (simp add: no_count_before_iff sublist_Cons_right)

lemma occurrence_with_digit:
  assumes "prefix l (c # pre @ l @ rest)"
    and "takeWhile is_digit (drop (length l) (c # pre @ l @ rest)) \<noteq> []"
  shows "\<exists>x. is_digit x \<and> sublist (l @ [x]) ((c # pre) @ l)"
proof -
  define s where "s = c # pre @ l @ rest"
  define t where "t = drop (length l) s"
  from assms(2) have "takeWhile is_digit t \<noteq> []" by (simp add: t_def s_def)
  then obtain x t' where t: "t = x # t'" and x: "is_digit x"
    by (cases t) (auto split: if_splits)
  from assms(1) obtain zs where zs: "s = l @ zs"
    by (auto simp: prefix_def s_def)
  then have "t = zs" by (simp add: t_def)
  with t zs have s: "s = (l @ [x]) @ t'" by simp
  have "take (Suc (length l)) s = take (Suc (length l)) ((c # pre) @ l)"
    by (simp add: s_def)
  moreover have "take (Suc (length l)) s = l @ [x]"
    by (subst s) simp
  ultimately have "take (Suc (length l)) ((c # pre) @ l) = l @ [x]" by simp
  then have "prefix (l @ [x]) ((c # pre) @ l)"
    by (metis take_is_prefix)
  then have "sublist (l @ [x]) ((c # pre) @ l)" by (rule prefix_imp_sublist)
  with x show ?thesis by (intro exI conjI)
qed

lemma re_search_first:
  assumes "no_count_before l pre"
    and "ds \<noteq> []" and "list_all is_digit ds" and "number_ends post"
  shows "re_search [Lit l, Digits] (pre @ l @ ds @ post) = Some ds"
  using assms(1)
proof (induction pre)
  case Nil
  have "takeWhile is_digit (ds @ post) = ds"
    using assms(3,4) unfolding number_ends_def by (rule takeWhile_run)
  with assms(2) have "match_here [Lit l, Digits] (l @ ds @ post) [] = Some ds"
    by (simp add: match_lit_digits Suc_le_eq)
  then show ?case
    by (simp add: re_search_hit)
next
  case (Cons c pre)
  have nm: "match_here [Lit l, Digits] (c # pre @ l @ ds @ post) [] = None"
  proof (rule ccontr)
    assume "match_here [Lit l, Digits] (c # pre @ l @ ds @ post) [] \<noteq> None"
    then have "prefix l (c # pre @ l @ ds @ post)"
      and "takeWhile is_digit (drop (length l) (c # pre @ l @ ds @ post)) \<noteq> []"
      unfolding match_lit_digits by (simp_all split: if_splits)
    then have "\<exists>x. is_digit x \<and> sublist (l @ [x]) ((c # pre) @ l)"
      by (rule occurrence_with_digit)
    then obtain x where "is_digit x" and "sublist (l @ [x]) ((c # pre) @ l)"
      by (elim exE conjE)
    with Cons.prems show False by (simp add: no_count_before_iff)
  qed
  from Cons.prems have "no_count_before l pre" by (rule no_count_before_Cons)
  then have "re_search [Lit l, Digits] (pre @ l @ ds @ post) = Some ds" by (rule Cons.IH)
  with nm show ?case by simp
qed

lemma re_search_Some:
  "re_search p s = Some d \<Longrightarrow> \<exists>t. length t \<le> length s \<and> match_here p t [] = Some d"
proof (induction s)
  case Nil
  then show ?case by auto
next
  case (Cons c cs)
  show ?case
  proof (cases "match_here p (c # cs) []")
    case None
    with Cons.prems have "re_search p cs = Some d" by simp
    then obtain t where "length t \<le> length cs" "match_here p t [] = Some d"
      using Cons.IH by (elim meta_impE exE conjE)
    then have "length t \<le> length (c # cs) \<and> match_here p t [] = Some d" by simp
    then show ?thesis by (rule exI)
  next
    case (Some g)
    with Cons.prems have "match_here p (c # cs) [] = Some d" by simp
    then have "length (c # cs) \<le> length (c # cs) \<and> match_here p (c # cs) [] = Some d"
      by simp
    then show ?thesis by (rule exI)
  qed
qed

lemma lit_digits_capture:
  assumes "match_here [Lit l, Digits] t g = Some d"
  shows "d \<noteq> [] \<and> list_all is_digit d \<and> length d \<le> length t"
proof -
  let ?r = "drop (length l) t"
  from assms have d: "d = takeWhile is_digit ?r" and ne: "d \<noteq> []"
    unfolding match_lit_digits by (auto split: if_splits)
  have "list_all is_digit (takeWhile is_digit ?r)"
    by (auto simp: list_all_iff dest: set_takeWhileD)
  moreover have "length (takeWhile is_digit ?r) \<le> length ?r"
    by (rule length_takeWhile_le)
  ultimately show ?thesis using ne by (simp add: d)
qed

lemma first_some_in: "first_some xs = Some y \<Longrightarrow> Some y \<in> set xs"
  by (induction xs) (auto split: option.splits)

lemma match_here_keeps_group:
  "Digits \<notin> set rs \<Longrightarrow> match_here rs s g = Some d \<Longrightarrow> d = g"
proof (induction rs s g rule: match_here.induct)
  case (1 s g)
  then show ?case by simp
next
  case (2 l rs s g)
  then show ?case by (auto split: if_splits)
next
  case (3 c rs s g)
  then show ?case by (auto split: if_splits option.splits)
next
  case (4 rs s g)
  then show ?case by simp
qed

lemma take_run_digits:
  assumes "n \<le> length (takeWhile P s)"
  shows "list_all P (take n s)"
proof -
  have "take n s = take n (takeWhile P s @ dropWhile P s)" by simp
  also have "\<dots> = take n (takeWhile P s)" using assms by (simp del: takeWhile_dropWhile_id)
  finally have "set (take n s) \<subseteq> set (takeWhile P s)" by (simp add: set_take_subset)
  then show ?thesis by (auto simp: list_all_iff dest: set_takeWhileD)
qed

lemma digits_first_capture:
  assumes "match_here (Digits # rs) s g = Some d" and "Digits \<notin> set rs"
  shows "d \<noteq> [] \<and> list_all is_digit d \<and> length d \<le> length s"
proof -
  let ?m = "length (takeWhile is_digit s)"
  from assms(1) have "first_some (map (\<lambda>n. match_here rs (drop n s) (take n s))
                                      (rev [1..<Suc ?m])) = Some d"
    by (simp only: match_here.simps)
  then have "Some d \<in> set (map (\<lambda>n. match_here rs (drop n s) (take n s))
                                (rev [1..<Suc ?m]))"
    by (rule first_some_in)
  then obtain n where "n \<in> set [1..<Suc ?m]" "match_here rs (drop n s) (take n s) = Some d"
    unfolding set_map set_rev by force
  then have n: "1 \<le> n" "n \<le> ?m" "match_here rs (drop n s) (take n s) = Some d"
    by (auto simp del: upt_Suc)
  with assms(2) have d: "d = take n s" by (auto dest: match_here_keeps_group)
  from n(2) have "n \<le> length s"
    by (meson le_trans length_takeWhile_le)
  with n(1) have "d \<noteq> []" by (auto simp: d)
  moreover from n(2) have "list_all is_digit d" unfolding d by (rule take_run_digits)
  moreover have "length d \<le> length s" by (simp add: d)
  ultimately show ?thesis by simp
qed

lemma match_digits_longest:
  assumes "takeWhile is_digit s = ds" and "ds \<noteq> []"
    and "match_here rs (drop (length ds) s) ds = Some r"
  shows "match_here (Digits # rs) s g = Some r"
proof -
  let ?m = "length ds"
  from assms(2) obtain k where k: "?m = Suc k" by (cases ds) auto
  have "take ?m s = ds"
    using assms(1) by (metis takeWhile_eq_take)
  with assms(3) have hit: "match_here rs (drop ?m s) (take ?m s) = Some r" by simp
  have "rev [1..<Suc ?m] = ?m # rev [1..<?m]"
    by (simp add: k)
  then have "first_some (map (\<lambda>n. match_here rs (drop n s) (take n s)) (rev [1..<Suc ?m]))
               = Some r"
    by (simp only: list.map first_some.simps hit option.case)
  then show ?thesis
    by (simp only: match_here.simps assms(1))
qed

text \<open>
  What \<open>count_of\<close> does for a pattern whose captured text is a run of digits of the text
  searched: the only error is the \<open>ValueError\<close> of a run that is too long.
\<close>

lemma count_of_error_iff:
  assumes "\<And>t d. match_here p t [] = Some d \<Longrightarrow> d \<noteq> [] \<and> list_all is_digit d"
  shows "count_of p s = Inl e \<longleftrightarrow> e = ValueError \<and> too_long p s"
proof (cases "re_search p s")
  case None
  then show ?thesis by (simp add: count_of_def too_long_def)
next
  case (Some d)
  then obtain t where "match_here p t [] = Some d"
    by (auto dest: re_search_Some)
  then have d: "d \<noteq> []" "list_all is_digit d" using assms by auto
  show ?thesis
  proof (cases "max_str_digits < length d")
    case True
    with Some show ?thesis by (auto simp: count_of_def too_long_def py_int_long)
  next
    case False
    with d have "py_int d = Inr (decimal_value d)" by (simp add: py_int_digits)
    with Some False show ?thesis by (simp add: count_of_def too_long_def)
  qed
qed

lemma count_of_value:
  assumes "\<And>t d. match_here p t [] = Some d \<Longrightarrow> d \<noteq> [] \<and> list_all is_digit d"
    and "count_of p s = Inr n"
  shows "0 \<le> n \<and> \<not> too_long p s \<and> (re_search p s = None \<longrightarrow> n = 0)"
proof (cases "re_search p s")
  case None
  with assms(2) show ?thesis by (simp add: count_of_def too_long_def)
next
  case (Some d)
  then obtain t where "match_here p t [] = Some d"
    by (auto dest: re_search_Some)
  then have d: "d \<noteq> []" "list_all is_digit d" using assms(1) by auto
  from Some assms(2) have pi: "py_int d = Inr n" by (simp add: count_of_def)
  then have len: "length d \<le> max_str_digits" by (simp add: py_int_def split: if_splits)
  with d pi have "0 \<le> n" using py_int_digits[of d] by simp
  with Some len show ?thesis by (simp add: too_long_def)
qed

lemma short_not_too_long:
  assumes "\<And>t d. match_here p t [] = Some d \<Longrightarrow> length d \<le> length t"
    and "length s \<le> max_str_digits"
  shows "\<not> too_long p s"
proof (cases "re_search p s")
  case None
  then show ?thesis by (simp add: too_long_def)
next
  case (Some d)
  then obtain t where "length t \<le> length s" "match_here p t [] = Some d"
    by (auto dest: re_search_Some)
  with assms have "length d \<le> max_str_digits" by (meson le_trans)
  with Some show ?thesis by (simp add: too_long_def)
qed

lemma count_of_miss: "re_search p s = None \<Longrightarrow> count_of p s = Inr 0"
  by (simp add: count_of_def)

lemma count_of_first:
  assumes "no_count_before l pre" and "number_ends post"
    and "length (str_nat n) \<le> max_str_digits"
  shows "count_of [Lit l, Digits] (pre @ l @ str_nat n @ post) = Inr (int n)"
  using re_search_first[OF assms(1) str_nat_nonempty str_nat_digits assms(2)] assms(3)
  by (simp add: count_of_def py_int_str_nat)

lemma count_of_absent: "\<not> sublist l s \<Longrightarrow> count_of [Lit l, Digits] s = Inr 0"
  by (simp add: count_of_def re_search_absent)

lemmas ahead_capture = lit_digits_capture[of "''ahead ''", folded ahead_rx_def]
lemmas behind_capture = lit_digits_capture[of "''behind ''", folded behind_rx_def]

section \<open>Tracking information: the counts that are read\<close>

lemma too_long_empty: "\<not> too_long [Lit (c # l), Digits] []"
  by (simp add: too_long_def)

lemma ahead_error_iff:
  "count_of ahead_rx s = Inl e \<longleftrightarrow> e = ValueError \<and> too_long ahead_rx s"
  by (rule count_of_error_iff) (auto dest: ahead_capture)

lemma behind_error_iff:
  "count_of behind_rx s = Inl e \<longleftrightarrow> e = ValueError \<and> too_long behind_rx s"
  by (rule count_of_error_iff) (auto dest: behind_capture)

lemma ahead_value:
  "count_of ahead_rx s = Inr n \<Longrightarrow>
     0 \<le> n \<and> \<not> too_long ahead_rx s \<and> (re_search ahead_rx s = None \<longrightarrow> n = 0)"
  by (rule count_of_value) (auto dest: ahead_capture)

lemma behind_value:
  "count_of behind_rx s = Inr n \<Longrightarrow>
     0 \<le> n \<and> \<not> too_long behind_rx s \<and> (re_search behind_rx s = None \<longrightarrow> n = 0)"
  by (rule count_of_value) (auto dest: behind_capture)

lemma tracking_error_iff:
  "parse_tracking_info s = Inl e \<longleftrightarrow>
     e = ValueError \<and> (too_long ahead_rx s \<or> too_long behind_rx s)"
proof (cases "s = []")
  case True
  then show ?thesis
    by (simp add: parse_tracking_info_def ahead_rx_def behind_rx_def too_long_empty)
next
  case False
  show ?thesis
  proof (cases "count_of ahead_rx s")
    case (Inl e')
    with False have "parse_tracking_info s = Inl e'" by (simp add: parse_tracking_info_def)
    moreover from Inl have "e' = ValueError \<and> too_long ahead_rx s"
      by (simp add: ahead_error_iff)
    ultimately show ?thesis by auto
  next
    case a: (Inr a)
    then have na: "\<not> too_long ahead_rx s" by (simp add: ahead_value)
    show ?thesis
    proof (cases "count_of behind_rx s")
      case (Inl e')
      with False a have "parse_tracking_info s = Inl e'"
        by (simp add: parse_tracking_info_def)
      moreover from Inl have "e' = ValueError \<and> too_long behind_rx s"
        by (simp add: behind_error_iff)
      ultimately show ?thesis by auto
    next
      case (Inr b)
      then have "\<not> too_long behind_rx s" by (simp add: behind_value)
      moreover from False a Inr have "parse_tracking_info s = Inr (a, b)"
        by (simp add: parse_tracking_info_def)
      ultimately show ?thesis using na by simp
    qed
  qed
qed

lemma tracking_counts:
  assumes "parse_tracking_info s = Inr (a, b)" and "s \<noteq> []"
  shows "count_of ahead_rx s = Inr a \<and> count_of behind_rx s = Inr b"
  using assms by (simp add: parse_tracking_info_def split: sum.splits)

lemma tracking_value:
  assumes "parse_tracking_info s = Inr (a, b)"
  shows "0 \<le> a \<and> 0 \<le> b
         \<and> (\<not> sublist ''ahead '' s \<longrightarrow> a = 0)
         \<and> (\<not> sublist ''behind '' s \<longrightarrow> b = 0)
         \<and> (re_search ahead_rx s = None \<longrightarrow> a = 0)
         \<and> (re_search behind_rx s = None \<longrightarrow> b = 0)"
proof (cases "s = []")
  case True
  with assms show ?thesis by (simp add: parse_tracking_info_def)
next
  case False
  with assms have a: "count_of ahead_rx s = Inr a" and b: "count_of behind_rx s = Inr b"
    by (simp_all add: tracking_counts)
  have a0: "\<not> sublist ''ahead '' s \<longrightarrow> a = 0"
    using a count_of_absent[of "''ahead ''" s] by (simp add: ahead_rx_def)
  have b0: "\<not> sublist ''behind '' s \<longrightarrow> b = 0"
    using b count_of_absent[of "''behind ''" s] by (simp add: behind_rx_def)
  from a b a0 b0 show ?thesis
    using ahead_value[of s a] behind_value[of s b] by simp
qed

lemma tracking_short:
  assumes "length s \<le> max_str_digits"
  shows "\<exists>a b. parse_tracking_info s = Inr (a, b)"
proof (cases "parse_tracking_info s")
  case (Inl e)
  then have "too_long ahead_rx s \<or> too_long behind_rx s" by (simp add: tracking_error_iff)
  moreover have "\<not> too_long ahead_rx s"
    using assms by (rule short_not_too_long[rotated]) (simp add: ahead_capture)
  moreover have "\<not> too_long behind_rx s"
    using assms by (rule short_not_too_long[rotated]) (simp add: behind_capture)
  ultimately show ?thesis by simp
next
  case (Inr p)
  then show ?thesis by (cases p) simp
qed

lemma ahead_first:
  assumes "no_count_before ''ahead '' pre" and "number_ends post"
    and "length (str_nat N) \<le> max_str_digits"
  shows "count_of ahead_rx (pre @ ''ahead '' @ str_nat N @ post) = Inr (int N)"
  using count_of_first[OF assms] by (simp add: ahead_rx_def)

lemma behind_first:
  assumes "no_count_before ''behind '' pre" and "number_ends post"
    and "length (str_nat M) \<le> max_str_digits"
  shows "count_of behind_rx (pre @ ''behind '' @ str_nat M @ post) = Inr (int M)"
  using count_of_first[OF assms] by (simp add: behind_rx_def)

lemma tracking_ahead:
  assumes "no_count_before ''ahead '' pre" and "number_ends post"
    and "length (str_nat N) \<le> max_str_digits"
    and "\<not> too_long behind_rx (pre @ ''ahead '' @ str_nat N @ post)"
  shows "\<exists>b. parse_tracking_info (pre @ ''ahead '' @ str_nat N @ post) = Inr (int N, b)"
proof -
  let ?s = "pre @ ''ahead '' @ str_nat N @ post"
  have "count_of ahead_rx ?s = Inr (int N)" using assms(1-3) by (rule ahead_first)
  moreover obtain b where "count_of behind_rx ?s = Inr b"
    using assms(4) by (cases "count_of behind_rx ?s") (simp_all add: behind_error_iff)
  ultimately show ?thesis by (simp add: parse_tracking_info_def)
qed

lemma tracking_behind:
  assumes "no_count_before ''behind '' pre" and "number_ends post"
    and "length (str_nat M) \<le> max_str_digits"
    and "\<not> too_long ahead_rx (pre @ ''behind '' @ str_nat M @ post)"
  shows "\<exists>a. parse_tracking_info (pre @ ''behind '' @ str_nat M @ post) = Inr (a, int M)"
proof -
  let ?s = "pre @ ''behind '' @ str_nat M @ post"
  have "count_of behind_rx ?s = Inr (int M)" using assms(1-3) by (rule behind_first)
  moreover obtain a where "count_of ahead_rx ?s = Inr a"
    using assms(4) by (cases "count_of ahead_rx ?s") (simp_all add: ahead_error_iff)
  ultimately show ?thesis by (simp add: parse_tracking_info_def)
qed

lemma tracking_both:
  assumes "no_count_before ''ahead '' pre" and "number_ends post"
    and "length (str_nat N) \<le> max_str_digits"
    and "no_count_before ''behind '' pre'" and "number_ends post'"
    and "length (str_nat M) \<le> max_str_digits"
    and "pre @ ''ahead '' @ str_nat N @ post = pre' @ ''behind '' @ str_nat M @ post'"
  shows "parse_tracking_info (pre @ ''ahead '' @ str_nat N @ post) = Inr (int N, int M)"
proof -
  let ?s = "pre @ ''ahead '' @ str_nat N @ post"
  have "count_of ahead_rx ?s = Inr (int N)" using assms(1-3) by (rule ahead_first)
  moreover have "count_of behind_rx (pre' @ ''behind '' @ str_nat M @ post') = Inr (int M)"
    using assms(4-6) by (rule behind_first)
  then have "count_of behind_rx ?s = Inr (int M)" by (simp only: assms(7))
  ultimately show ?thesis by (simp add: parse_tracking_info_def)
qed

lemma tracking_only_ahead:
  assumes "no_count_before ''ahead '' pre" and "number_ends post"
    and "length (str_nat N) \<le> max_str_digits"
    and "\<not> sublist ''behind '' (pre @ ''ahead '' @ str_nat N @ post)"
  shows "parse_tracking_info (pre @ ''ahead '' @ str_nat N @ post) = Inr (int N, 0)"
proof -
  let ?s = "pre @ ''ahead '' @ str_nat N @ post"
  have "count_of ahead_rx ?s = Inr (int N)" using assms(1-3) by (rule ahead_first)
  moreover have "count_of behind_rx ?s = Inr 0"
    using count_of_absent[OF assms(4)] by (simp add: behind_rx_def)
  ultimately show ?thesis by (simp add: parse_tracking_info_def)
qed

lemma tracking_only_behind:
  assumes "no_count_before ''behind '' pre" and "number_ends post"
    and "length (str_nat M) \<le> max_str_digits"
    and "\<not> sublist ''ahead '' (pre @ ''behind '' @ str_nat M @ post)"
  shows "parse_tracking_info (pre @ ''behind '' @ str_nat M @ post) = Inr (0, int M)"
proof -
  let ?s = "pre @ ''behind '' @ str_nat M @ post"
  have "count_of behind_rx ?s = Inr (int M)" using assms(1-3) by (rule behind_first)
  moreover have "count_of ahead_rx ?s = Inr 0"
    using count_of_absent[OF assms(4)] by (simp add: ahead_rx_def)
  ultimately show ?thesis by (simp add: parse_tracking_info_def)
qed

lemma tracking_neither:
  assumes "re_search ahead_rx s = None" and "re_search behind_rx s = None"
  shows "parse_tracking_info s = Inr (0, 0)"
  using assms by (simp add: parse_tracking_info_def count_of_miss)

lemma replicate_digits:
  "is_digit c \<Longrightarrow> 0 < n \<Longrightarrow> replicate n c \<noteq> [] \<and> list_all is_digit (replicate n c)"
  by (simp add: list_all_iff)

text \<open>
  Claim C2. For every tracking string that contains \<open>ahead N\<close> and/or \<open>behind M\<close>, in either
  order, \<open>parse_tracking_info\<close> returns exactly \<open>(N, M)\<close>, each component being 0 when its
  marker is absent; for empty, bracket-only or otherwise malformed input it returns \<open>(0, 0)\<close>,
  and it never raises.

  The claim fails where it says that the function never raises: \<open>int\<close> refuses a captured
  run of more than 4300 digits, so a tracking string such as \<open>[ahead 11\<dots>1]\<close> with 4301
  digits makes the function raise \<open>ValueError\<close>.
\<close>

theorem parse_tracking_info_long_count_raises:
  "parse_tracking_info (''[ahead '' @ replicate 4301 CHR ''1'' @ '']'') = Inl ValueError
   \<and> length (''[ahead '' @ replicate 4301 CHR ''1'' @ '']'') = 4309"
proof -
  let ?ds = "replicate 4301 CHR ''1''"
  let ?s = "''['' @ ''ahead '' @ ?ds @ '']''"
  have "is_digit CHR ''1''" by (simp add: is_digit_def)
  then have ds: "?ds \<noteq> [] \<and> list_all is_digit ?ds"
    by (rule replicate_digits) simp
  have "no_count_before ''ahead '' ''[''" by code_simp
  moreover have "number_ends '']''" by (simp add: number_ends_def is_digit_def)
  ultimately have "re_search [Lit ''ahead '', Digits] ?s = Some ?ds"
    using ds by (intro re_search_first) simp_all
  then have "count_of ahead_rx ?s = Inl ValueError"
    by (simp add: count_of_def ahead_rx_def py_int_long max_str_digits_def)
  then have "parse_tracking_info ?s = Inl ValueError"
    by (simp add: parse_tracking_info_def)
  then show ?thesis by simp
qed

text \<open>
  Claim C2, as the code has it. \<open>parse_tracking_info\<close> raises exactly when the digits that
  follow the first counted \<open>ahead \<close> or the first counted \<open>behind \<close> are more than
  4300, and then it raises \<open>ValueError\<close>; in particular it returns on every string of at
  most 4300 characters. Whenever it returns, both components are non-negative, and a
  component is 0 when its marker does not occur in the string, and more generally when its
  pattern (the marker followed by at least one digit) has no match. When the first
  occurrence of \<open>ahead \<close> that is followed by a digit is followed by the decimal numeral of
  \<open>N\<close>, of at most 4300 digits and not followed by a further digit, the first component is
  \<open>N\<close>, whatever stands before and after; likewise for \<open>behind \<close> and the second component.
  So a string with both counts gives \<open>(N, M)\<close> in either order, a string with one count and
  without the other marker gives \<open>(N, 0)\<close> or \<open>(0, M)\<close>, and a string in which neither
  pattern matches, the empty and the bracket-only string among them, gives \<open>(0, 0)\<close>.
\<close>

theorem parse_tracking_info_counts:
  "(\<forall>s e. parse_tracking_info s = Inl e \<longleftrightarrow>
            e = ValueError \<and> (too_long ahead_rx s \<or> too_long behind_rx s))
   \<and> (\<forall>s. length s \<le> max_str_digits \<longrightarrow> (\<exists>a b. parse_tracking_info s = Inr (a, b)))
   \<and> (\<forall>s a b. parse_tracking_info s = Inr (a, b) \<longrightarrow>
          0 \<le> a \<and> 0 \<le> b
          \<and> (\<not> sublist ''ahead '' s \<longrightarrow> a = 0)
          \<and> (\<not> sublist ''behind '' s \<longrightarrow> b = 0)
          \<and> (re_search ahead_rx s = None \<longrightarrow> a = 0)
          \<and> (re_search behind_rx s = None \<longrightarrow> b = 0))
   \<and> (\<forall>pre post N.
          no_count_before ''ahead '' pre \<and> number_ends post
          \<and> length (str_nat N) \<le> max_str_digits
          \<and> \<not> too_long behind_rx (pre @ ''ahead '' @ str_nat N @ post)
        \<longrightarrow> (\<exists>b. parse_tracking_info (pre @ ''ahead '' @ str_nat N @ post) = Inr (int N, b)))
   \<and> (\<forall>pre post M.
          no_count_before ''behind '' pre \<and> number_ends post
          \<and> length (str_nat M) \<le> max_str_digits
          \<and> \<not> too_long ahead_rx (pre @ ''behind '' @ str_nat M @ post)
        \<longrightarrow> (\<exists>a. parse_tracking_info (pre @ ''behind '' @ str_nat M @ post) = Inr (a, int M)))
   \<and> (\<forall>pre post N pre' post' M.
          no_count_before ''ahead '' pre \<and> number_ends post
          \<and> length (str_nat N) \<le> max_str_digits
          \<and> no_count_before ''behind '' pre' \<and> number_ends post'
          \<and> length (str_nat M) \<le> max_str_digits
          \<and> pre @ ''ahead '' @ str_nat N @ post = pre' @ ''behind '' @ str_nat M @ post'
        \<longrightarrow> parse_tracking_info (pre @ ''ahead '' @ str_nat N @ post) = Inr (int N, int M))
   \<and> (\<forall>pre post N.
          no_count_before ''ahead '' pre \<and> number_ends post
          \<and> length (str_nat N) \<le> max_str_digits
          \<and> \<not> sublist ''behind '' (pre @ ''ahead '' @ str_nat N @ post)
        \<longrightarrow> parse_tracking_info (pre @ ''ahead '' @ str_nat N @ post) = Inr (int N, 0))
   \<and> (\<forall>pre post M.
          no_count_before ''behind '' pre \<and> number_ends post
          \<and> length (str_nat M) \<le> max_str_digits
          \<and> \<not> sublist ''ahead '' (pre @ ''behind '' @ str_nat M @ post)
        \<longrightarrow> parse_tracking_info (pre @ ''behind '' @ str_nat M @ post) = Inr (0, int M))
   \<and> (\<forall>s. re_search ahead_rx s = None \<and> re_search behind_rx s = None
        \<longrightarrow> parse_tracking_info s = Inr (0, 0))
   \<and> parse_tracking_info [] = Inr (0, 0)
   \<and> parse_tracking_info ''[]'' = Inr (0, 0)"
proof (intro conjI allI impI)
  fix s e
  show "parse_tracking_info s = Inl e \<longleftrightarrow>
          e = ValueError \<and> (too_long ahead_rx s \<or> too_long behind_rx s)"
    by (rule tracking_error_iff)
next
  fix s :: string
  assume "length s \<le> max_str_digits"
  then show "\<exists>a b. parse_tracking_info s = Inr (a, b)" by (rule tracking_short)
next
  fix s a b
  assume r: "parse_tracking_info s = Inr (a, b)"
  note v = tracking_value[OF r]
  from v show "0 \<le> a" by (elim conjE)
  from v show "0 \<le> b" by (elim conjE)
  { assume "\<not> sublist ''ahead '' s" with v show "a = 0" by (elim conjE) simp }
  { assume "\<not> sublist ''behind '' s" with v show "b = 0" by (elim conjE) simp }
  { assume "re_search ahead_rx s = None" with v show "a = 0" by (elim conjE) simp }
  { assume "re_search behind_rx s = None" with v show "b = 0" by (elim conjE) simp }
next
  fix pre post :: string and N :: nat
  assume "no_count_before ''ahead '' pre \<and> number_ends post
          \<and> length (str_nat N) \<le> max_str_digits
          \<and> \<not> too_long behind_rx (pre @ ''ahead '' @ str_nat N @ post)"
  then show "\<exists>b. parse_tracking_info (pre @ ''ahead '' @ str_nat N @ post) = Inr (int N, b)"
    by (elim conjE) (rule tracking_ahead)
next
  fix pre post :: string and M :: nat
  assume "no_count_before ''behind '' pre \<and> number_ends post
          \<and> length (str_nat M) \<le> max_str_digits
          \<and> \<not> too_long ahead_rx (pre @ ''behind '' @ str_nat M @ post)"
  then show "\<exists>a. parse_tracking_info (pre @ ''behind '' @ str_nat M @ post) = Inr (a, int M)"
    by (elim conjE) (rule tracking_behind)
next
  fix pre post pre' post' :: string and N M :: nat
  assume "no_count_before ''ahead '' pre \<and> number_ends post
          \<and> length (str_nat N) \<le> max_str_digits
          \<and> no_count_before ''behind '' pre' \<and> number_ends post'
          \<and> length (str_nat M) \<le> max_str_digits
          \<and> pre @ ''ahead '' @ str_nat N @ post = pre' @ ''behind '' @ str_nat M @ post'"
  then show "parse_tracking_info (pre @ ''ahead '' @ str_nat N @ post) = Inr (int N, int M)"
    by (elim conjE) (rule tracking_both)
next
  fix pre post :: string and N :: nat
  assume "no_count_before ''ahead '' pre \<and> number_ends post
          \<and> length (str_nat N) \<le> max_str_digits
          \<and> \<not> sublist ''behind '' (pre @ ''ahead '' @ str_nat N @ post)"
  then show "parse_tracking_info (pre @ ''ahead '' @ str_nat N @ post) = Inr (int N, 0)"
    by (elim conjE) (rule tracking_only_ahead)
next
  fix pre post :: string and M :: nat
  assume "no_count_before ''behind '' pre \<and> number_ends post
          \<and> length (str_nat M) \<le> max_str_digits
          \<and> \<not> sublist ''ahead '' (pre @ ''behind '' @ str_nat M @ post)"
  then show "parse_tracking_info (pre @ ''behind '' @ str_nat M @ post) = Inr (0, int M)"
    by (elim conjE) (rule tracking_only_behind)
next
  fix s
  assume "re_search ahead_rx s = None \<and> re_search behind_rx s = None"
  then show "parse_tracking_info s = Inr (0, 0)"
    by (elim conjE) (rule tracking_neither)
next
  show "parse_tracking_info [] = Inr (0, 0)"
    by (simp add: parse_tracking_info_def)
next
  show "parse_tracking_info ''[]'' = Inr (0, 0)"
    by (simp add: parse_tracking_info_def count_of_def ahead_rx_def behind_rx_def)
qed

theorem parse_tracking_info_counts_witness:
  "no_count_before ''ahead '' ''[behind 2, '' \<and> number_ends '']''
   \<and> no_count_before ''behind '' ''['' \<and> number_ends '', ahead 4]''
   \<and> length (str_nat 4) \<le> max_str_digits \<and> length (str_nat 2) \<le> max_str_digits
   \<and> parse_tracking_info ''[behind 2, ahead 4]'' = Inr (4, 2)
   \<and> no_count_before ''ahead '' ''ahead x '' \<and> number_ends []
   \<and> length (str_nat 5) \<le> max_str_digits
   \<and> \<not> sublist ''behind '' ''ahead x ahead 5''
   \<and> parse_tracking_info ''ahead x ahead 5'' = Inr (5, 0)
   \<and> re_search ahead_rx ''[ahead x]'' = None \<and> re_search behind_rx ''[ahead x]'' = None
   \<and> parse_tracking_info ''[ahead x]'' = Inr (0, 0)
   \<and> length ''[ahead 3]'' \<le> max_str_digits
   \<and> (\<exists>a b. parse_tracking_info ''[ahead 3]'' = Inr (a, b))"
proof -
  note t = parse_tracking_info_counts
  have n4: "str_nat 4 = ''4''" and n2: "str_nat 2 = ''2''" and n5: "str_nat 5 = ''5''"
    by (simp_all add: str_nat.simps digit_char_def)
  have h1: "no_count_before ''ahead '' ''[behind 2, ''" by code_simp
  have h2: "number_ends '']''" by code_simp
  have h3: "no_count_before ''behind '' ''[''" by code_simp
  have h4: "number_ends '', ahead 4]''" by code_simp
  have l4: "length (str_nat 4) \<le> max_str_digits" by (simp add: n4 max_str_digits_def)
  have l2: "length (str_nat 2) \<le> max_str_digits" by (simp add: n2 max_str_digits_def)
  have l5: "length (str_nat 5) \<le> max_str_digits" by (simp add: n5 max_str_digits_def)
  have e1: "''[behind 2, '' @ ''ahead '' @ str_nat 4 @ '']''
              = ''['' @ ''behind '' @ str_nat 2 @ '', ahead 4]''"
    by (simp add: n4 n2)
  have both: "\<forall>pre post N pre' post' M.
          no_count_before ''ahead '' pre \<and> number_ends post
          \<and> length (str_nat N) \<le> max_str_digits
          \<and> no_count_before ''behind '' pre' \<and> number_ends post'
          \<and> length (str_nat M) \<le> max_str_digits
          \<and> pre @ ''ahead '' @ str_nat N @ post = pre' @ ''behind '' @ str_nat M @ post'
        \<longrightarrow> parse_tracking_info (pre @ ''ahead '' @ str_nat N @ post) = Inr (int N, int M)"
    using t by (elim conjE)
  from both h1 h2 l4 h3 h4 l2 e1
  have "parse_tracking_info (''[behind 2, '' @ ''ahead '' @ str_nat 4 @ '']'')
          = Inr (int 4, int 2)"
    by (elim allE[where x = "''[behind 2, ''"] allE[where x = "'']''"] allE[where x = "4::nat"]
          allE[where x = "''[''"] allE[where x = "'', ahead 4]''"] allE[where x = "2::nat"])
       simp
  then have p1: "parse_tracking_info ''[behind 2, ahead 4]'' = Inr (4, 2)"
    by (simp add: n4)
  have h5: "no_count_before ''ahead '' ''ahead x ''" by code_simp
  have h6: "number_ends []" by code_simp
  have h7: "\<not> sublist ''behind '' ''ahead x ahead 5''" by code_simp
  then have h7': "\<not> sublist ''behind '' (''ahead x '' @ ''ahead '' @ str_nat 5 @ [])"
    by (simp add: n5)
  have only: "\<forall>pre post N.
          no_count_before ''ahead '' pre \<and> number_ends post
          \<and> length (str_nat N) \<le> max_str_digits
          \<and> \<not> sublist ''behind '' (pre @ ''ahead '' @ str_nat N @ post)
        \<longrightarrow> parse_tracking_info (pre @ ''ahead '' @ str_nat N @ post) = Inr (int N, 0)"
    using t by (elim conjE)
  from only h5 h6 l5 h7'
  have "parse_tracking_info (''ahead x '' @ ''ahead '' @ str_nat 5 @ []) = Inr (int 5, 0)"
    by (elim allE[where x = "''ahead x ''"] allE[where x = "[]"] allE[where x = "5::nat"])
       simp
  then have p2: "parse_tracking_info ''ahead x ahead 5'' = Inr (5, 0)"
    by (simp add: n5)
  have m1: "re_search ahead_rx ''[ahead x]'' = None" by code_simp
  have m2: "re_search behind_rx ''[ahead x]'' = None" by code_simp
  have neither: "\<forall>s. re_search ahead_rx s = None \<and> re_search behind_rx s = None
        \<longrightarrow> parse_tracking_info s = Inr (0, 0)"
    using t by (elim conjE)
  with m1 m2 have p3: "parse_tracking_info ''[ahead x]'' = Inr (0, 0)" by simp
  have s1: "length ''[ahead 3]'' \<le> max_str_digits" by (simp add: max_str_digits_def)
  have short: "\<forall>s. length s \<le> max_str_digits \<longrightarrow> (\<exists>a b. parse_tracking_info s = Inr (a, b))"
    using t by (elim conjE)
  with s1 have p4: "\<exists>a b. parse_tracking_info ''[ahead 3]'' = Inr (a, b)" by simp
  from h1 h2 h3 h4 l4 l2 p1 h5 h6 l5 h7 p2 m1 m2 p3 s1 p4 show ?thesis
    by - (intro conjI; assumption)
qed

section \<open>What the collectors return\<close>

lemma io_bind_Ret_iff:
  "io_bind m f = (es, Ret y) \<longleftrightarrow>
     (\<exists>es1 x es2. m = (es1, Ret x) \<and> f x = (es2, Ret y) \<and> es = es1 @ es2)"
  by (cases m; cases "snd m") (auto simp: io_bind_def io_after_def prod_eq_iff)

lemma io_then_Ret_iff:
  "io_then m k = (es, Ret y) \<longleftrightarrow>
     (\<exists>es1 es2. m = (es1, Ret ()) \<and> k = (es2, Ret y) \<and> es = es1 @ es2)"
  by (auto simp: io_then_def io_bind_Ret_iff)

lemma io_ret_iff: "io_ret x = (es, Ret y) \<longleftrightarrow> es = [] \<and> x = y"
  by (auto simp: io_ret_def)

lemma io_lift_Ret_iff: "io_lift r = (es, Ret y) \<longleftrightarrow> es = [] \<and> r = Inr y"
  by (cases r) (auto simp: io_lift_def io_ret_def)

lemma run_git_Ret: "run_git git args check = (es, Ret r) \<Longrightarrow> es = []"
  by (auto simp: run_git_def subprocess_run_def io_ret_def io_then_def io_bind_def io_print_def
        io_exit_def io_after_def split: proc.splits if_splits)

lemma staged_collected:
  assumes "get_staged_changes git config = (es, Ret (Some info))"
  shows "\<exists>stat d. run_git git [''diff'', ''--cached'', ''--stat''] True = ([], Ret (True, stat))
           \<and> run_git git [''diff'', ''--cached''] True = ([], Ret (True, d))
           \<and> diff_stat info = stat
           \<and> truncate_diff config d = Inr (diff_content info)
           \<and> parse_file_stats stat = Inr (files_changed info, insertions info, deletions info)"
  using assms unfolding get_staged_changes_def
  by (auto simp: io_bind_Ret_iff io_ret_iff io_lift_Ret_iff Let_def split: if_splits
           dest: run_git_Ret)

lemma branch_collected:
  assumes "get_branch_diff git branch u config = (es, Ret (Some info))"
  shows "\<exists>r stat d. upstream info = Some r
           \<and> run_git git [''diff'', ''--stat'', r @ ''..'' @ branch] True = ([], Ret (True, stat))
           \<and> run_git git [''diff'', r @ ''..'' @ branch] True = ([], Ret (True, d))
           \<and> diff_stat info = stat
           \<and> truncate_diff config d = Inr (diff_content info)
           \<and> parse_file_stats stat = Inr (files_changed info, insertions info, deletions info)"
  using assms unfolding get_branch_diff_def
  by (auto simp: io_bind_Ret_iff io_then_Ret_iff io_ret_iff io_lift_Ret_iff Let_def is_set_def
           split: if_splits option.splits dest: run_git_Ret)

lemma truncate_diff_over:
  assumes "truncate_diff config d = Inr r" and "int (length d) > max_diff_chars config"
  shows "r = slice_to d (max_diff_chars config)
               @ truncation_note (max_diff_chars config) (length d)
         \<and> length (str_nat (length d)) \<le> max_str_digits"
  using assms
  by (auto simp: truncate_diff_def Let_def py_str_def truncation_note_def split: if_splits)

lemma truncate_diff_under:
  "int (length d) \<le> max_diff_chars config \<Longrightarrow> truncate_diff config d = Inr d"
  by (simp add: truncate_diff_def Let_def)

lemma note_says_truncated: "sublist ''Truncated'' (truncation_note cap n)"
proof -
  have "truncation_note cap n =
          ''\<newline>\<newline>... ['' @ ''Truncated'' @ ('': showing first '' @ str_int cap @ '' of ''
             @ str_int (int n) @ '' characters]'')"
    by (simp add: truncation_note_def truncation_text_def)
  then show ?thesis by (simp only: sublist_appendI)
qed

lemma note_says_size: "sublist (str_nat n) (truncation_note cap n)"
proof -
  have "truncation_note cap n =
          (''\<newline>\<newline>... [Truncated: showing first '' @ str_int cap @ '' of '') @ str_nat n
             @ '' characters]''"
    by (simp add: truncation_note_def truncation_text_def str_int_def)
  then show ?thesis by (simp only: sublist_appendI)
qed

lemma note_nonempty: "truncation_note cap n \<noteq> []"
  by (simp add: truncation_note_def truncation_text_def)

text \<open>
  Claim C1. For every diff text strictly longer than the configured character cap, the
  collected diff content, in branch mode and in staged mode, starts with exactly the first
  \<open>cap\<close> characters of the original text, followed by an annotation that contains the word
  \<open>Truncated\<close> and the original length as a decimal number; the annotation is not counted
  against the cap, so the final text is longer than the cap.

  The diff text \<open>d\<close> is what \<open>run_git\<close> returned for the diff command of the mode. The
  collected content is the slice \<open>d[:cap]\<close> followed by the annotation; for a cap that is a
  character count (not negative) the slice is the first \<open>cap\<close> characters and the rest of the
  content is the annotation. The numeral in the annotation reads back as the length of \<open>d\<close>.
\<close>

theorem diff_over_cap_truncated:
  assumes "(get_staged_changes git config = (es, Ret (Some info))
              \<and> run_git git [''diff'', ''--cached''] True = ([], Ret (True, d)))
           \<or> (get_branch_diff git branch u config = (es, Ret (Some info))
              \<and> run_git git [''diff'', the (upstream info) @ ''..'' @ branch] True
                  = ([], Ret (True, d)))"
    and "int (length d) > max_diff_chars config"
  shows "diff_content info =
           slice_to d (max_diff_chars config)
             @ truncation_note (max_diff_chars config) (length d)
         \<and> (0 \<le> max_diff_chars config \<longrightarrow>
              take (nat (max_diff_chars config)) (diff_content info)
                = take (nat (max_diff_chars config)) d
              \<and> drop (nat (max_diff_chars config)) (diff_content info)
                = truncation_note (max_diff_chars config) (length d))
         \<and> sublist ''Truncated'' (truncation_note (max_diff_chars config) (length d))
         \<and> sublist (str_nat (length d)) (truncation_note (max_diff_chars config) (length d))
         \<and> py_int (str_nat (length d)) = Inr (int (length d))
         \<and> int (length (diff_content info)) > max_diff_chars config"
proof -
  let ?cap = "max_diff_chars config"
  let ?note = "truncation_note ?cap (length d)"
  from assms(1) have "truncate_diff config d = Inr (diff_content info)"
  proof
    assume a: "get_staged_changes git config = (es, Ret (Some info))
                 \<and> run_git git [''diff'', ''--cached''] True = ([], Ret (True, d))"
    then show ?thesis using staged_collected[of git config es info] by auto
  next
    assume a: "get_branch_diff git branch u config = (es, Ret (Some info))
                 \<and> run_git git [''diff'', the (upstream info) @ ''..'' @ branch] True
                     = ([], Ret (True, d))"
    then show ?thesis using branch_collected[of git branch u config es info] by auto
  qed
  then have "diff_content info = slice_to d ?cap @ ?note
             \<and> length (str_nat (length d)) \<le> max_str_digits"
    using assms(2) by (rule truncate_diff_over)
  then have eq: "diff_content info = slice_to d ?cap @ ?note"
    and digits: "length (str_nat (length d)) \<le> max_str_digits"
    by simp_all
  have parts: "0 \<le> ?cap \<longrightarrow> take (nat ?cap) (diff_content info) = take (nat ?cap) d
                 \<and> drop (nat ?cap) (diff_content info) = ?note"
    using assms(2) by (simp add: eq slice_to_def)
  have len: "int (length (diff_content info)) > ?cap"
  proof (cases "0 \<le> ?cap")
    case True
    with assms(2) have "length (slice_to d ?cap) = nat ?cap" by (simp add: slice_to_def)
    moreover have "0 < length ?note" using note_nonempty by simp
    ultimately show ?thesis using True by (simp add: eq)
  next
    case False
    then show ?thesis by simp
  qed
  from digits have reads: "py_int (str_nat (length d)) = Inr (int (length d))"
    by (rule py_int_str_nat)
  from eq parts len reads show ?thesis
    by (simp only: note_says_truncated note_says_size simp_thms)
qed

theorem diff_over_cap_truncated_witness:
  "(let info = \<lparr>name = ''main'', upstream = None, ahead = 0, behind = 0,
                 diff_stat = ''1 file changed, 8 insertions(+)'',
                 diff_content = ''abcde\<newline>\<newline>... [Truncated: showing first 5 of 8 characters]'',
                 commit_log = [], files_changed = 1, insertions = 8, deletions = 0\<rparr>
    in get_staged_changes staged_git (example_config 5) = ([], Ret (Some info))
       \<and> run_git staged_git [''diff'', ''--cached''] True = ([], Ret (True, ''abcdefgh''))
       \<and> int (length ''abcdefgh'') > max_diff_chars (example_config 5)
       \<and> 0 \<le> max_diff_chars (example_config 5)
       \<and> diff_content info = slice_to ''abcdefgh'' 5 @ truncation_note 5 8
       \<and> take (nat 5) (diff_content info) = ''abcde''
       \<and> drop (nat 5) (diff_content info) = truncation_note 5 8
       \<and> sublist ''Truncated'' (truncation_note 5 8)
       \<and> sublist (str_nat 8) (truncation_note 5 8)
       \<and> int (length (diff_content info)) > 5)
   \<and> (let info = \<lparr>name = ''feature'', upstream = Some ''origin/main'', ahead = 1, behind = 0,
                 diff_stat = ''2 files changed, 20 insertions(+), 3 deletions(-)'',
                 diff_content = ''abcde\<newline>\<newline>... [Truncated: showing first 5 of 8 characters]'',
                 commit_log = ''abc123 Add feature'',
                 files_changed = 2, insertions = 20, deletions = 3\<rparr>
    in get_branch_diff branch_git ''feature'' (Some ''origin/main'') (example_config 5)
         = ([], Ret (Some info))
       \<and> run_git branch_git [''diff'', the (upstream info) @ ''..'' @ ''feature''] True
           = ([], Ret (True, ''abcdefgh''))
       \<and> int (length ''abcdefgh'') > max_diff_chars (example_config 5)
       \<and> 0 \<le> max_diff_chars (example_config 5)
       \<and> diff_content info = slice_to ''abcdefgh'' 5 @ truncation_note 5 8
       \<and> take (nat 5) (diff_content info) = ''abcde''
       \<and> drop (nat 5) (diff_content info) = truncation_note 5 8
       \<and> sublist ''Truncated'' (truncation_note 5 8)
       \<and> sublist (str_nat 8) (truncation_note 5 8)
       \<and> int (length (diff_content info)) > 5)"
proof -
  have len8: "length ''abcdefgh'' = 8" by simp
  have cap5: "max_diff_chars (example_config 5) = 5" by (simp add: example_config_def)
  have h3: "int (length ''abcdefgh'') > max_diff_chars (example_config 5)"
    by (simp add: example_config_def)
  have h4: "0 \<le> max_diff_chars (example_config 5)" by (simp add: example_config_def)
  have tk8: "take (nat 5) ''abcdefgh'' = ''abcde''" by simp
  let ?staged = "\<lparr>name = ''main'', upstream = None, ahead = 0, behind = 0,
                 diff_stat = ''1 file changed, 8 insertions(+)'',
                 diff_content = ''abcde\<newline>\<newline>... [Truncated: showing first 5 of 8 characters]'',
                 commit_log = [], files_changed = 1, insertions = 8, deletions = 0\<rparr>"
  have s1: "get_staged_changes staged_git (example_config 5) = ([], Ret (Some ?staged))"
    by code_simp
  have s2: "run_git staged_git [''diff'', ''--cached''] True = ([], Ret (True, ''abcdefgh''))"
    by code_simp
  note st = diff_over_cap_truncated[OF disjI1[OF conjI[OF s1 s2]] h3, unfolded len8 cap5]
  from st have "(0::int) \<le> 5 \<longrightarrow>
                 take (nat 5) (diff_content ?staged) = take (nat 5) ''abcdefgh''
                 \<and> drop (nat 5) (diff_content ?staged) = truncation_note 5 8"
    by (elim conjE)
  then have "take (nat 5) (diff_content ?staged) = take (nat 5) ''abcdefgh''
             \<and> drop (nat 5) (diff_content ?staged) = truncation_note 5 8"
    by (rule mp) simp
  with tk8 have stk: "take (nat 5) (diff_content ?staged) = ''abcde''"
    and sdr: "drop (nat 5) (diff_content ?staged) = truncation_note 5 8"
    by (simp_all only:)
  from st s1 s2 h3 h4 stk sdr have staged:
    "get_staged_changes staged_git (example_config 5) = ([], Ret (Some ?staged))
       \<and> run_git staged_git [''diff'', ''--cached''] True = ([], Ret (True, ''abcdefgh''))
       \<and> int (length ''abcdefgh'') > max_diff_chars (example_config 5)
       \<and> 0 \<le> max_diff_chars (example_config 5)
       \<and> diff_content ?staged = slice_to ''abcdefgh'' 5 @ truncation_note 5 8
       \<and> take (nat 5) (diff_content ?staged) = ''abcde''
       \<and> drop (nat 5) (diff_content ?staged) = truncation_note 5 8
       \<and> sublist ''Truncated'' (truncation_note 5 8)
       \<and> sublist (str_nat 8) (truncation_note 5 8)
       \<and> int (length (diff_content ?staged)) > 5"
    by (elim conjE) (intro conjI; assumption)
  let ?branch = "\<lparr>name = ''feature'', upstream = Some ''origin/main'', ahead = 1, behind = 0,
                 diff_stat = ''2 files changed, 20 insertions(+), 3 deletions(-)'',
                 diff_content = ''abcde\<newline>\<newline>... [Truncated: showing first 5 of 8 characters]'',
                 commit_log = ''abc123 Add feature'',
                 files_changed = 2, insertions = 20, deletions = 3\<rparr>"
  have b1: "get_branch_diff branch_git ''feature'' (Some ''origin/main'') (example_config 5)
              = ([], Ret (Some ?branch))"
    by code_simp
  have b2: "run_git branch_git [''diff'', the (upstream ?branch) @ ''..'' @ ''feature''] True
              = ([], Ret (True, ''abcdefgh''))"
    by code_simp
  note bt = diff_over_cap_truncated[OF disjI2[OF conjI[OF b1 b2]] h3, unfolded len8 cap5]
  from bt have "(0::int) \<le> 5 \<longrightarrow>
                 take (nat 5) (diff_content ?branch) = take (nat 5) ''abcdefgh''
                 \<and> drop (nat 5) (diff_content ?branch) = truncation_note 5 8"
    by (elim conjE)
  then have "take (nat 5) (diff_content ?branch) = take (nat 5) ''abcdefgh''
             \<and> drop (nat 5) (diff_content ?branch) = truncation_note 5 8"
    by (rule mp) simp
  with tk8 have btk: "take (nat 5) (diff_content ?branch) = ''abcde''"
    and bdr: "drop (nat 5) (diff_content ?branch) = truncation_note 5 8"
    by (simp_all only:)
  from bt b1 b2 h3 h4 btk bdr have branch:
    "get_branch_diff branch_git ''feature'' (Some ''origin/main'') (example_config 5)
         = ([], Ret (Some ?branch))
       \<and> run_git branch_git [''diff'', the (upstream ?branch) @ ''..'' @ ''feature''] True
           = ([], Ret (True, ''abcdefgh''))
       \<and> int (length ''abcdefgh'') > max_diff_chars (example_config 5)
       \<and> 0 \<le> max_diff_chars (example_config 5)
       \<and> diff_content ?branch = slice_to ''abcdefgh'' 5 @ truncation_note 5 8
       \<and> take (nat 5) (diff_content ?branch) = ''abcde''
       \<and> drop (nat 5) (diff_content ?branch) = truncation_note 5 8
       \<and> sublist ''Truncated'' (truncation_note 5 8)
       \<and> sublist (str_nat 8) (truncation_note 5 8)
       \<and> int (length (diff_content ?branch)) > 5"
    by (elim conjE) (intro conjI; assumption)
  from staged branch show ?thesis
    unfolding Let_def by (rule conjI)
qed

text \<open>
  Claim C9. For every diff text whose length is at or under the configured character cap,
  the collected diff content is the original text, unchanged, with no annotation appended.
\<close>

theorem diff_within_cap_unchanged:
  assumes "(get_staged_changes git config = (es, Ret (Some info))
              \<and> run_git git [''diff'', ''--cached''] True = ([], Ret (True, d)))
           \<or> (get_branch_diff git branch u config = (es, Ret (Some info))
              \<and> run_git git [''diff'', the (upstream info) @ ''..'' @ branch] True
                  = ([], Ret (True, d)))"
    and "int (length d) \<le> max_diff_chars config"
  shows "diff_content info = d"
proof -
  from assms(1) have "truncate_diff config d = Inr (diff_content info)"
  proof
    assume a: "get_staged_changes git config = (es, Ret (Some info))
                 \<and> run_git git [''diff'', ''--cached''] True = ([], Ret (True, d))"
    then show ?thesis using staged_collected[of git config es info] by auto
  next
    assume a: "get_branch_diff git branch u config = (es, Ret (Some info))
                 \<and> run_git git [''diff'', the (upstream info) @ ''..'' @ branch] True
                     = ([], Ret (True, d))"
    then show ?thesis using branch_collected[of git branch u config es info] by auto
  qed
  with assms(2) show ?thesis by (simp add: truncate_diff_under)
qed

theorem diff_within_cap_unchanged_witness:
  "(let info = \<lparr>name = ''feature'', upstream = Some ''origin/main'', ahead = 1, behind = 0,
                 diff_stat = ''2 files changed, 20 insertions(+), 3 deletions(-)'',
                 diff_content = ''abcdefgh'', commit_log = ''abc123 Add feature'',
                 files_changed = 2, insertions = 20, deletions = 3\<rparr>
    in get_branch_diff branch_git ''feature'' (Some ''origin/main'') (example_config 8)
         = ([], Ret (Some info))
       \<and> run_git branch_git [''diff'', the (upstream info) @ ''..'' @ ''feature''] True
           = ([], Ret (True, ''abcdefgh''))
       \<and> int (length ''abcdefgh'') \<le> max_diff_chars (example_config 8)
       \<and> diff_content info = ''abcdefgh'')"
proof -
  let ?info = "\<lparr>name = ''feature'', upstream = Some ''origin/main'', ahead = 1, behind = 0,
                 diff_stat = ''2 files changed, 20 insertions(+), 3 deletions(-)'',
                 diff_content = ''abcdefgh'', commit_log = ''abc123 Add feature'',
                 files_changed = 2, insertions = 20, deletions = 3\<rparr>"
  have h1: "get_branch_diff branch_git ''feature'' (Some ''origin/main'') (example_config 8)
              = ([], Ret (Some ?info))"
    by code_simp
  have h2: "run_git branch_git [''diff'', the (upstream ?info) @ ''..'' @ ''feature''] True
              = ([], Ret (True, ''abcdefgh''))"
    by code_simp
  have h3: "int (length ''abcdefgh'') \<le> max_diff_chars (example_config 8)"
    by (simp add: example_config_def)
  note t = diff_within_cap_unchanged[OF disjI2[OF conjI[OF h1 h2]] h3]
  from t h1 h2 h3 show ?thesis
    unfolding Let_def by - (intro conjI; assumption)
qed

section \<open>File statistics\<close>

lemma files_capture:
  "match_here files_rx t [] = Some d \<Longrightarrow> d \<noteq> [] \<and> list_all is_digit d \<and> length d \<le> length t"
  unfolding files_rx_def by (erule digits_first_capture) simp

lemma insertions_capture:
  "match_here insertions_rx t [] = Some d \<Longrightarrow>
     d \<noteq> [] \<and> list_all is_digit d \<and> length d \<le> length t"
  unfolding insertions_rx_def by (erule digits_first_capture) simp

lemma deletions_capture:
  "match_here deletions_rx t [] = Some d \<Longrightarrow>
     d \<noteq> [] \<and> list_all is_digit d \<and> length d \<le> length t"
  unfolding deletions_rx_def by (erule digits_first_capture) simp

lemma files_error_iff:
  "count_of files_rx s = Inl e \<longleftrightarrow> e = ValueError \<and> too_long files_rx s"
  by (rule count_of_error_iff) (auto dest: files_capture)

lemma insertions_error_iff:
  "count_of insertions_rx s = Inl e \<longleftrightarrow> e = ValueError \<and> too_long insertions_rx s"
  by (rule count_of_error_iff) (auto dest: insertions_capture)

lemma deletions_error_iff:
  "count_of deletions_rx s = Inl e \<longleftrightarrow> e = ValueError \<and> too_long deletions_rx s"
  by (rule count_of_error_iff) (auto dest: deletions_capture)

lemma files_value:
  "count_of files_rx s = Inr n \<Longrightarrow>
     0 \<le> n \<and> \<not> too_long files_rx s \<and> (re_search files_rx s = None \<longrightarrow> n = 0)"
  by (rule count_of_value) (auto dest: files_capture)

lemma insertions_value:
  "count_of insertions_rx s = Inr n \<Longrightarrow>
     0 \<le> n \<and> \<not> too_long insertions_rx s \<and> (re_search insertions_rx s = None \<longrightarrow> n = 0)"
  by (rule count_of_value) (auto dest: insertions_capture)

lemma deletions_value:
  "count_of deletions_rx s = Inr n \<Longrightarrow>
     0 \<le> n \<and> \<not> too_long deletions_rx s \<and> (re_search deletions_rx s = None \<longrightarrow> n = 0)"
  by (rule count_of_value) (auto dest: deletions_capture)

lemma stats_error_iff:
  "parse_file_stats stat = Inl e \<longleftrightarrow>
     e = ValueError
     \<and> (too_long files_rx stat \<or> too_long insertions_rx stat \<or> too_long deletions_rx stat)"
proof (cases "count_of files_rx stat")
  case (Inl e')
  then have "parse_file_stats stat = Inl e'" by (simp add: parse_file_stats_def)
  moreover from Inl have "e' = ValueError \<and> too_long files_rx stat"
    by (simp add: files_error_iff)
  ultimately show ?thesis by auto
next
  case fc: (Inr fc)
  then have nf: "\<not> too_long files_rx stat" by (simp add: files_value)
  show ?thesis
  proof (cases "count_of insertions_rx stat")
    case (Inl e')
    with fc have "parse_file_stats stat = Inl e'" by (simp add: parse_file_stats_def)
    moreover from Inl have "e' = ValueError \<and> too_long insertions_rx stat"
      by (simp add: insertions_error_iff)
    ultimately show ?thesis by auto
  next
    case ins: (Inr ins)
    then have ni: "\<not> too_long insertions_rx stat" by (simp add: insertions_value)
    show ?thesis
    proof (cases "count_of deletions_rx stat")
      case (Inl e')
      with fc ins have "parse_file_stats stat = Inl e'" by (simp add: parse_file_stats_def)
      moreover from Inl have "e' = ValueError \<and> too_long deletions_rx stat"
        by (simp add: deletions_error_iff)
      ultimately show ?thesis by auto
    next
      case (Inr del)
      then have "\<not> too_long deletions_rx stat" by (simp add: deletions_value)
      moreover from fc ins Inr have "parse_file_stats stat = Inr (fc, ins, del)"
        by (simp add: parse_file_stats_def)
      ultimately show ?thesis using nf ni by simp
    qed
  qed
qed

lemma stats_counts:
  assumes "parse_file_stats stat = Inr (fc, ins, del)"
  shows "count_of files_rx stat = Inr fc \<and> count_of insertions_rx stat = Inr ins
         \<and> count_of deletions_rx stat = Inr del"
  using assms by (simp add: parse_file_stats_def split: sum.splits)

lemma stats_value:
  assumes "parse_file_stats stat = Inr (fc, ins, del)"
  shows "count_of files_rx stat = Inr fc
         \<and> count_of insertions_rx stat = Inr ins
         \<and> count_of deletions_rx stat = Inr del
         \<and> 0 \<le> fc \<and> 0 \<le> ins \<and> 0 \<le> del
         \<and> (re_search files_rx stat = None \<longrightarrow> fc = 0)
         \<and> (re_search insertions_rx stat = None \<longrightarrow> ins = 0)
         \<and> (re_search deletions_rx stat = None \<longrightarrow> del = 0)"
proof -
  from assms have c: "count_of files_rx stat = Inr fc" "count_of insertions_rx stat = Inr ins"
    "count_of deletions_rx stat = Inr del"
    by (simp_all add: stats_counts)
  then show ?thesis
    using files_value[of stat fc] insertions_value[of stat ins] deletions_value[of stat del]
    by simp
qed

lemma stats_short:
  assumes "length stat \<le> max_str_digits"
  shows "\<exists>fc ins del. parse_file_stats stat = Inr (fc, ins, del)"
proof (cases "parse_file_stats stat")
  case (Inl e)
  then have "too_long files_rx stat \<or> too_long insertions_rx stat \<or> too_long deletions_rx stat"
    by (simp add: stats_error_iff)
  moreover have "\<not> too_long files_rx stat"
    using assms by (rule short_not_too_long[rotated]) (simp add: files_capture)
  moreover have "\<not> too_long insertions_rx stat"
    using assms by (rule short_not_too_long[rotated]) (simp add: insertions_capture)
  moreover have "\<not> too_long deletions_rx stat"
    using assms by (rule short_not_too_long[rotated]) (simp add: deletions_capture)
  ultimately show ?thesis by simp
next
  case (Inr p)
  then show ?thesis by (cases p) simp
qed

lemma stats_empty: "parse_file_stats [] = Inr (0, 0, 0)"
  by (simp add: parse_file_stats_def count_of_def files_rx_def insertions_rx_def
        deletions_rx_def)

lemma run_git_checked:
  "git args = Completed rc out err \<Longrightarrow>
     run_git git args True
       = ([], Ret (rc = 0, if rc = 0 then strip out else if err \<noteq> [] then strip err else []))"
  by (simp add: run_git_def subprocess_run_def io_ret_def)

lemma io_bind_ret: "io_bind ([], Ret x) f = f x"
  by (simp add: io_bind_def io_after_def)

lemma io_bind_raise: "io_bind ([], Raise e) f = ([], Raise e)"
  by (simp add: io_bind_def)

lemma io_bind_lift_Inr: "io_bind (io_lift (Inr x)) f = f x"
  by (simp add: io_lift_def io_ret_def io_bind_ret)

lemma io_bind_lift_Inl: "io_bind (io_lift (Inl e)) f = ([], Raise e)"
  by (simp add: io_lift_def io_bind_raise)

lemma staged_returns:
  assumes "git [''diff'', ''--cached'', ''--name-only''] = Completed 0 o1 e1"
    and "strip o1 \<noteq> []"
    and "git [''diff'', ''--cached'', ''--stat''] = Completed 0 o2 e2"
    and "git [''diff'', ''--cached''] = Completed 0 o3 e3"
    and "truncate_diff config (strip o3) = Inr t"
    and "git [''branch'', ''--show-current''] = Completed rc o4 e4"
  shows "(\<forall>e. parse_file_stats (strip o2) = Inl e \<longrightarrow>
             get_staged_changes git config = ([], Raise e))
         \<and> (\<forall>fc ins del. parse_file_stats (strip o2) = Inr (fc, ins, del) \<longrightarrow>
             get_staged_changes git config
               = ([], Ret (Some
                    \<lparr>name = (if rc = 0 then strip o4 else ''HEAD''), upstream = None,
                     ahead = 0, behind = 0, diff_stat = strip o2, diff_content = t,
                     commit_log = [], files_changed = fc, insertions = ins,
                     deletions = del\<rparr>)))"
  using assms
  by (simp add: get_staged_changes_def run_git_checked io_bind_ret io_bind_lift_Inr
        io_bind_lift_Inl io_ret_def)

lemma branch_returns:
  assumes "r \<noteq> []"
    and "git [''diff'', ''--stat'', r @ ''..'' @ branch] = Completed 0 o1 e1"
    and "git [''diff'', r @ ''..'' @ branch] = Completed 0 o2 e2"
    and "truncate_diff config (strip o2) = Inr t"
    and "git [''log'', ''--oneline'', r @ ''..'' @ branch] = Completed rc3 o3 e3"
    and "git [''for-each-ref'', ''--format=%(upstream:track)'', ''refs/heads/'' @ branch]
           = Completed rc4 o4 e4"
    and "parse_tracking_info (if rc4 = 0 then strip o4 else []) = Inr (a, b)"
  shows "(\<forall>e. parse_file_stats (strip o1) = Inl e \<longrightarrow>
             get_branch_diff git branch (Some r) config = ([], Raise e))
         \<and> (\<forall>fc ins del. parse_file_stats (strip o1) = Inr (fc, ins, del) \<longrightarrow>
             get_branch_diff git branch (Some r) config
               = ([], Ret (Some
                    \<lparr>name = branch, upstream = Some r, ahead = a, behind = b,
                     diff_stat = strip o1, diff_content = t,
                     commit_log = (if rc3 = 0 then strip o3 else []),
                     files_changed = fc, insertions = ins, deletions = del\<rparr>)))"
proof -
  have up: "find_upstream git (Some r) = ([], Ret (Some r))"
    using assms(1) by (simp add: find_upstream_def is_set_def io_ret_def)
  show ?thesis
    using assms
    by (cases "rc4 = 0"; cases "rc3 = 0")
      (simp_all add: get_branch_diff_def up is_set_def Let_def run_git_checked io_bind_ret
         io_bind_lift_Inr io_bind_lift_Inl io_ret_def)
qed

lemma strip_id:
  assumes "s \<noteq> []" and "\<not> is_space (hd s)" and "\<not> is_space (last s)"
  shows "strip s = s"
proof -
  from assms(1,2) have "dropWhile is_space s = s" by (cases s) simp_all
  moreover from assms(1,3) have "dropWhile is_space (rev s) = rev s"
    by (cases "rev s") (simp_all add: hd_rev)
  ultimately show ?thesis by (simp add: strip_def)
qed

lemma files_changed_long:
  assumes "ds \<noteq> []" and "list_all is_digit ds"
  shows "re_search files_rx (ds @ '' files changed'') = Some ds"
proof -
  let ?s = "ds @ '' files changed''"
  have "takeWhile is_digit ?s = ds"
    using assms(2) by (rule takeWhile_run) (simp add: is_digit_def)
  moreover have "match_here [Lit '' file'', Opt CHR ''s'', Lit '' changed'']
                   (drop (length ds) ?s) ds = Some ds"
    by simp
  ultimately have "match_here files_rx ?s [] = Some ds"
    unfolding files_rx_def using assms(1) by (intro match_digits_longest)
  then show ?thesis by (rule re_search_hit)
qed

text \<open>
  Claim C3. File statistics are read from the diff summary by three independent patterns
  (files changed, insertions, deletions); for every summary, a pattern that does not match
  gives 0 for its field only, without affecting the other two fields and without an error;
  in particular the empty summary gives 0, 0 and 0.

  The claim fails where it says that no summary gives an error: \<open>int\<close> refuses a captured
  run of more than 4300 digits. For a summary whose file count is written with 4301 digits
  the staged collector raises \<open>ValueError\<close> instead of returning a record.
\<close>

theorem file_stats_long_count_raises:
  "run_git long_stat_git [''diff'', ''--cached'', ''--stat''] True
     = ([], Ret (True, replicate 4301 CHR ''0'' @ '' files changed''))
   \<and> get_staged_changes long_stat_git (example_config 8) = ([], Raise ValueError)"
proof -
  let ?ds = "replicate 4301 CHR ''0''"
  let ?out = "?ds @ '' files changed''"
  have "is_digit CHR ''0''" by (simp add: is_digit_def)
  then have ds: "?ds \<noteq> [] \<and> list_all is_digit ?ds"
    by (rule replicate_digits) simp
  then have "re_search files_rx ?out = Some ?ds" by (simp add: files_changed_long)
  then have "count_of files_rx ?out = Inl ValueError"
    by (simp add: count_of_def py_int_long max_str_digits_def)
  then have p: "parse_file_stats ?out = Inl ValueError"
    by (simp add: parse_file_stats_def)
  have "hd ?out = CHR ''0''" by (simp add: hd_append)
  moreover have "last ?out = CHR ''d''" by simp
  ultimately have st: "strip ?out = ?out"
    by (intro strip_id) (simp_all add: is_space_def)
  have g1: "long_stat_git [''diff'', ''--cached'', ''--name-only''] = Completed 0 ''a.txt'' []"
    by (simp add: long_stat_git_def staged_git_def)
  have g1': "strip ''a.txt'' \<noteq> []" by code_simp
  have g2: "long_stat_git [''diff'', ''--cached'', ''--stat''] = Completed 0 ?out []"
    by (simp add: long_stat_git_def)
  have g3: "long_stat_git [''diff'', ''--cached''] = Completed 0 ''abcdefgh'' []"
    by (simp add: long_stat_git_def staged_git_def)
  have g3': "truncate_diff (example_config 8) (strip ''abcdefgh'') = Inr ''abcdefgh''"
    by code_simp
  have g4: "long_stat_git [''branch'', ''--show-current''] = Completed 0 ''main'' []"
    by (simp add: long_stat_git_def staged_git_def)
  from p have "parse_file_stats (strip ?out) = Inl ValueError" by (simp only: st)
  with staged_returns[OF g1 g1' g2 g3 g3' g4]
  have "get_staged_changes long_stat_git (example_config 8) = ([], Raise ValueError)"
    by (elim conjE allE[where x = ValueError]) simp
  moreover have "run_git long_stat_git [''diff'', ''--cached'', ''--stat''] True
                   = ([], Ret (True, ?out))"
    using g2 by (simp add: run_git_def subprocess_run_def io_ret_def st)
  ultimately show ?thesis by simp
qed

text \<open>
  Claim C3, as the code has it. The three statistics are read from the summary by three
  patterns, one after the other; \<open>parse_file_stats\<close> is that block of the two collectors.
  It raises exactly when the digits captured by one of the patterns are more than 4300,
  and then it raises \<open>ValueError\<close>; in particular it returns on every summary of at most
  4300 characters. Whenever it returns, each count is what its own pattern alone reads
  (\<open>count_of\<close> of that pattern), it is not negative, and it is 0 when \<open>re.search\<close> finds no
  match for that pattern; the empty summary gives 0, 0 and 0. When git answers the commands
  of a collector with status 0 and the diff is within what \<open>truncate_diff\<close> formats, the
  collector raises the error of the block, or else returns the record that holds the
  summary and exactly the three counts read from it; and every record a collector returns
  holds the counts of the summary it holds.
\<close>

theorem file_stats_independent:
  "(\<forall>stat e. parse_file_stats stat = Inl e \<longleftrightarrow>
       e = ValueError
       \<and> (too_long files_rx stat \<or> too_long insertions_rx stat \<or> too_long deletions_rx stat))
   \<and> (\<forall>stat. length stat \<le> max_str_digits \<longrightarrow>
         (\<exists>fc ins del. parse_file_stats stat = Inr (fc, ins, del)))
   \<and> (\<forall>stat fc ins del. parse_file_stats stat = Inr (fc, ins, del) \<longrightarrow>
         count_of files_rx stat = Inr fc
         \<and> count_of insertions_rx stat = Inr ins
         \<and> count_of deletions_rx stat = Inr del
         \<and> 0 \<le> fc \<and> 0 \<le> ins \<and> 0 \<le> del
         \<and> (re_search files_rx stat = None \<longrightarrow> fc = 0)
         \<and> (re_search insertions_rx stat = None \<longrightarrow> ins = 0)
         \<and> (re_search deletions_rx stat = None \<longrightarrow> del = 0))
   \<and> parse_file_stats [] = Inr (0, 0, 0)
   \<and> (\<forall>git config o1 e1 o2 e2 o3 e3 t rc o4 e4.
         git [''diff'', ''--cached'', ''--name-only''] = Completed 0 o1 e1
         \<and> strip o1 \<noteq> []
         \<and> git [''diff'', ''--cached'', ''--stat''] = Completed 0 o2 e2
         \<and> git [''diff'', ''--cached''] = Completed 0 o3 e3
         \<and> truncate_diff config (strip o3) = Inr t
         \<and> git [''branch'', ''--show-current''] = Completed rc o4 e4
       \<longrightarrow> (\<forall>e. parse_file_stats (strip o2) = Inl e \<longrightarrow>
               get_staged_changes git config = ([], Raise e))
           \<and> (\<forall>fc ins del. parse_file_stats (strip o2) = Inr (fc, ins, del) \<longrightarrow>
               get_staged_changes git config
                 = ([], Ret (Some
                      \<lparr>name = (if rc = 0 then strip o4 else ''HEAD''), upstream = None,
                       ahead = 0, behind = 0, diff_stat = strip o2, diff_content = t,
                       commit_log = [], files_changed = fc, insertions = ins,
                       deletions = del\<rparr>))))
   \<and> (\<forall>git branch config r o1 e1 o2 e2 t rc3 o3 e3 rc4 o4 e4 a b.
         r \<noteq> []
         \<and> git [''diff'', ''--stat'', r @ ''..'' @ branch] = Completed 0 o1 e1
         \<and> git [''diff'', r @ ''..'' @ branch] = Completed 0 o2 e2
         \<and> truncate_diff config (strip o2) = Inr t
         \<and> git [''log'', ''--oneline'', r @ ''..'' @ branch] = Completed rc3 o3 e3
         \<and> git [''for-each-ref'', ''--format=%(upstream:track)'', ''refs/heads/'' @ branch]
             = Completed rc4 o4 e4
         \<and> parse_tracking_info (if rc4 = 0 then strip o4 else []) = Inr (a, b)
       \<longrightarrow> (\<forall>e. parse_file_stats (strip o1) = Inl e \<longrightarrow>
               get_branch_diff git branch (Some r) config = ([], Raise e))
           \<and> (\<forall>fc ins del. parse_file_stats (strip o1) = Inr (fc, ins, del) \<longrightarrow>
               get_branch_diff git branch (Some r) config
                 = ([], Ret (Some
                      \<lparr>name = branch, upstream = Some r, ahead = a, behind = b,
                       diff_stat = strip o1, diff_content = t,
                       commit_log = (if rc3 = 0 then strip o3 else []),
                       files_changed = fc, insertions = ins, deletions = del\<rparr>))))
   \<and> (\<forall>git config es info.
         get_staged_changes git config = (es, Ret (Some info)) \<longrightarrow>
           parse_file_stats (diff_stat info)
             = Inr (files_changed info, insertions info, deletions info))
   \<and> (\<forall>git branch u config es info.
         get_branch_diff git branch u config = (es, Ret (Some info)) \<longrightarrow>
           parse_file_stats (diff_stat info)
             = Inr (files_changed info, insertions info, deletions info))"
proof -
  have A: "\<forall>stat e. parse_file_stats stat = Inl e \<longleftrightarrow>
       e = ValueError
       \<and> (too_long files_rx stat \<or> too_long insertions_rx stat \<or> too_long deletions_rx stat)"
    by (intro allI) (rule stats_error_iff)
  have B: "\<forall>stat. length stat \<le> max_str_digits \<longrightarrow>
         (\<exists>fc ins del. parse_file_stats stat = Inr (fc, ins, del))"
    by (intro allI impI) (rule stats_short)
  have C: "\<forall>stat fc ins del. parse_file_stats stat = Inr (fc, ins, del) \<longrightarrow>
         count_of files_rx stat = Inr fc
         \<and> count_of insertions_rx stat = Inr ins
         \<and> count_of deletions_rx stat = Inr del
         \<and> 0 \<le> fc \<and> 0 \<le> ins \<and> 0 \<le> del
         \<and> (re_search files_rx stat = None \<longrightarrow> fc = 0)
         \<and> (re_search insertions_rx stat = None \<longrightarrow> ins = 0)
         \<and> (re_search deletions_rx stat = None \<longrightarrow> del = 0)"
    by (intro allI impI) (rule stats_value)
  have E: "\<forall>git config o1 e1 o2 e2 o3 e3 t rc o4 e4.
         git [''diff'', ''--cached'', ''--name-only''] = Completed 0 o1 e1
         \<and> strip o1 \<noteq> []
         \<and> git [''diff'', ''--cached'', ''--stat''] = Completed 0 o2 e2
         \<and> git [''diff'', ''--cached''] = Completed 0 o3 e3
         \<and> truncate_diff config (strip o3) = Inr t
         \<and> git [''branch'', ''--show-current''] = Completed rc o4 e4
       \<longrightarrow> (\<forall>e. parse_file_stats (strip o2) = Inl e \<longrightarrow>
               get_staged_changes git config = ([], Raise e))
           \<and> (\<forall>fc ins del. parse_file_stats (strip o2) = Inr (fc, ins, del) \<longrightarrow>
               get_staged_changes git config
                 = ([], Ret (Some
                      \<lparr>name = (if rc = 0 then strip o4 else ''HEAD''), upstream = None,
                       ahead = 0, behind = 0, diff_stat = strip o2, diff_content = t,
                       commit_log = [], files_changed = fc, insertions = ins,
                       deletions = del\<rparr>)))"
  proof (intro allI impI)
    fix git :: git_env and config :: Config and o1 e1 o2 e2 o3 e3 t o4 e4 :: string
      and rc :: int
    assume "git [''diff'', ''--cached'', ''--name-only''] = Completed 0 o1 e1
         \<and> strip o1 \<noteq> []
         \<and> git [''diff'', ''--cached'', ''--stat''] = Completed 0 o2 e2
         \<and> git [''diff'', ''--cached''] = Completed 0 o3 e3
         \<and> truncate_diff config (strip o3) = Inr t
         \<and> git [''branch'', ''--show-current''] = Completed rc o4 e4"
    then show "(\<forall>e. parse_file_stats (strip o2) = Inl e \<longrightarrow>
               get_staged_changes git config = ([], Raise e))
           \<and> (\<forall>fc ins del. parse_file_stats (strip o2) = Inr (fc, ins, del) \<longrightarrow>
               get_staged_changes git config
                 = ([], Ret (Some
                      \<lparr>name = (if rc = 0 then strip o4 else ''HEAD''), upstream = None,
                       ahead = 0, behind = 0, diff_stat = strip o2, diff_content = t,
                       commit_log = [], files_changed = fc, insertions = ins,
                       deletions = del\<rparr>)))"
      by (elim conjE) (rule staged_returns)
  qed
  have F: "\<forall>git branch config r o1 e1 o2 e2 t rc3 o3 e3 rc4 o4 e4 a b.
         r \<noteq> []
         \<and> git [''diff'', ''--stat'', r @ ''..'' @ branch] = Completed 0 o1 e1
         \<and> git [''diff'', r @ ''..'' @ branch] = Completed 0 o2 e2
         \<and> truncate_diff config (strip o2) = Inr t
         \<and> git [''log'', ''--oneline'', r @ ''..'' @ branch] = Completed rc3 o3 e3
         \<and> git [''for-each-ref'', ''--format=%(upstream:track)'', ''refs/heads/'' @ branch]
             = Completed rc4 o4 e4
         \<and> parse_tracking_info (if rc4 = 0 then strip o4 else []) = Inr (a, b)
       \<longrightarrow> (\<forall>e. parse_file_stats (strip o1) = Inl e \<longrightarrow>
               get_branch_diff git branch (Some r) config = ([], Raise e))
           \<and> (\<forall>fc ins del. parse_file_stats (strip o1) = Inr (fc, ins, del) \<longrightarrow>
               get_branch_diff git branch (Some r) config
                 = ([], Ret (Some
                      \<lparr>name = branch, upstream = Some r, ahead = a, behind = b,
                       diff_stat = strip o1, diff_content = t,
                       commit_log = (if rc3 = 0 then strip o3 else []),
                       files_changed = fc, insertions = ins, deletions = del\<rparr>)))"
  proof (intro allI impI)
    fix git :: git_env and config :: Config
      and branch r o1 e1 o2 e2 t o3 e3 o4 e4 :: string and rc3 rc4 a b :: int
    assume "r \<noteq> []
         \<and> git [''diff'', ''--stat'', r @ ''..'' @ branch] = Completed 0 o1 e1
         \<and> git [''diff'', r @ ''..'' @ branch] = Completed 0 o2 e2
         \<and> truncate_diff config (strip o2) = Inr t
         \<and> git [''log'', ''--oneline'', r @ ''..'' @ branch] = Completed rc3 o3 e3
         \<and> git [''for-each-ref'', ''--format=%(upstream:track)'', ''refs/heads/'' @ branch]
             = Completed rc4 o4 e4
         \<and> parse_tracking_info (if rc4 = 0 then strip o4 else []) = Inr (a, b)"
    then show "(\<forall>e. parse_file_stats (strip o1) = Inl e \<longrightarrow>
               get_branch_diff git branch (Some r) config = ([], Raise e))
           \<and> (\<forall>fc ins del. parse_file_stats (strip o1) = Inr (fc, ins, del) \<longrightarrow>
               get_branch_diff git branch (Some r) config
                 = ([], Ret (Some
                      \<lparr>name = branch, upstream = Some r, ahead = a, behind = b,
                       diff_stat = strip o1, diff_content = t,
                       commit_log = (if rc3 = 0 then strip o3 else []),
                       files_changed = fc, insertions = ins, deletions = del\<rparr>)))"
      by (elim conjE) (rule branch_returns)
  qed
  have G: "\<forall>git config es info.
         get_staged_changes git config = (es, Ret (Some info)) \<longrightarrow>
           parse_file_stats (diff_stat info)
             = Inr (files_changed info, insertions info, deletions info)"
  proof (intro allI impI)
    fix git config es info
    assume "get_staged_changes git config = (es, Ret (Some info))"
    then show "parse_file_stats (diff_stat info)
                 = Inr (files_changed info, insertions info, deletions info)"
      using staged_collected[of git config es info] by auto
  qed
  have H: "\<forall>git branch u config es info.
         get_branch_diff git branch u config = (es, Ret (Some info)) \<longrightarrow>
           parse_file_stats (diff_stat info)
             = Inr (files_changed info, insertions info, deletions info)"
  proof (intro allI impI)
    fix git branch u config es info
    assume "get_branch_diff git branch u config = (es, Ret (Some info))"
    then show "parse_file_stats (diff_stat info)
                 = Inr (files_changed info, insertions info, deletions info)"
      using branch_collected[of git branch u config es info] by auto
  qed
  from A B C stats_empty E F G H show ?thesis
    by - (intro conjI; assumption)
qed

theorem file_stats_independent_witness:
  "staged_git [''diff'', ''--cached'', ''--name-only''] = Completed 0 ''a.txt'' []
   \<and> strip ''a.txt'' \<noteq> []
   \<and> staged_git [''diff'', ''--cached'', ''--stat'']
       = Completed 0 '' 1 file changed, 8 insertions(+)'' []
   \<and> staged_git [''diff'', ''--cached''] = Completed 0 ''abcdefgh'' []
   \<and> truncate_diff (example_config 8) (strip ''abcdefgh'') = Inr ''abcdefgh''
   \<and> staged_git [''branch'', ''--show-current''] = Completed 0 ''main'' []
   \<and> re_search deletions_rx ''1 file changed, 8 insertions(+)'' = None
   \<and> parse_file_stats (strip '' 1 file changed, 8 insertions(+)'') = Inr (1, 8, 0)
   \<and> get_staged_changes staged_git (example_config 8)
       = ([], Ret (Some
            \<lparr>name = ''main'', upstream = None, ahead = 0, behind = 0,
             diff_stat = ''1 file changed, 8 insertions(+)'', diff_content = ''abcdefgh'',
             commit_log = [], files_changed = 1, insertions = 8, deletions = 0\<rparr>))
   \<and> branch_git [''diff'', ''--stat'', ''origin/main'' @ ''..'' @ ''feature'']
       = Completed 0 '' 2 files changed, 20 insertions(+), 3 deletions(-)'' []
   \<and> branch_git [''diff'', ''origin/main'' @ ''..'' @ ''feature''] = Completed 0 ''abcdefgh'' []
   \<and> branch_git [''log'', ''--oneline'', ''origin/main'' @ ''..'' @ ''feature'']
       = Completed 0 ''abc123 Add feature'' []
   \<and> branch_git [''for-each-ref'', ''--format=%(upstream:track)'', ''refs/heads/'' @ ''feature'']
       = Completed 0 ''[ahead 1]'' []
   \<and> parse_tracking_info (strip ''[ahead 1]'') = Inr (1, 0)
   \<and> parse_file_stats (strip '' 2 files changed, 20 insertions(+), 3 deletions(-)'')
       = Inr (2, 20, 3)
   \<and> get_branch_diff branch_git ''feature'' (Some ''origin/main'') (example_config 8)
       = ([], Ret (Some
            \<lparr>name = ''feature'', upstream = Some ''origin/main'', ahead = 1, behind = 0,
             diff_stat = ''2 files changed, 20 insertions(+), 3 deletions(-)'',
             diff_content = ''abcdefgh'', commit_log = ''abc123 Add feature'',
             files_changed = 2, insertions = 20, deletions = 3\<rparr>))"
proof -
  note t = file_stats_independent
  have tr: "truncate_diff (example_config 8) (strip ''abcdefgh'') = Inr ''abcdefgh''"
    by code_simp
  have s1: "staged_git [''diff'', ''--cached'', ''--name-only''] = Completed 0 ''a.txt'' []"
    by (simp add: staged_git_def)
  have s1': "strip ''a.txt'' \<noteq> []" by code_simp
  have s2: "staged_git [''diff'', ''--cached'', ''--stat'']
              = Completed 0 '' 1 file changed, 8 insertions(+)'' []"
    by (simp add: staged_git_def)
  have s3: "staged_git [''diff'', ''--cached''] = Completed 0 ''abcdefgh'' []"
    by (simp add: staged_git_def)
  have s4: "staged_git [''branch'', ''--show-current''] = Completed 0 ''main'' []"
    by (simp add: staged_git_def)
  have st: "strip '' 1 file changed, 8 insertions(+)'' = ''1 file changed, 8 insertions(+)''"
    and sm: "strip ''main'' = ''main''"
    by code_simp+
  have sp: "parse_file_stats (strip '' 1 file changed, 8 insertions(+)'') = Inr (1, 8, 0)"
    by code_simp
  have sn: "re_search deletions_rx ''1 file changed, 8 insertions(+)'' = None" by code_simp
  have staged: "get_staged_changes staged_git (example_config 8)
       = ([], Ret (Some
            \<lparr>name = ''main'', upstream = None, ahead = 0, behind = 0,
             diff_stat = ''1 file changed, 8 insertions(+)'', diff_content = ''abcdefgh'',
             commit_log = [], files_changed = 1, insertions = 8, deletions = 0\<rparr>))"
    using t[THEN conjunct2, THEN conjunct2, THEN conjunct2, THEN conjunct2, THEN conjunct1,
            rule_format, OF conjI[OF s1 conjI[OF s1' conjI[OF s2 conjI[OF s3 conjI[OF tr s4]]]]],
            THEN conjunct2, rule_format, OF sp]
    by (simp add: st sm)
  have b1: "branch_git [''diff'', ''--stat'', ''origin/main'' @ ''..'' @ ''feature'']
              = Completed 0 '' 2 files changed, 20 insertions(+), 3 deletions(-)'' []"
    by (simp add: branch_git_def)
  have b2: "branch_git [''diff'', ''origin/main'' @ ''..'' @ ''feature'']
              = Completed 0 ''abcdefgh'' []"
    by (simp add: branch_git_def)
  have b3: "branch_git [''log'', ''--oneline'', ''origin/main'' @ ''..'' @ ''feature'']
              = Completed 0 ''abc123 Add feature'' []"
    by (simp add: branch_git_def)
  have b4: "branch_git [''for-each-ref'', ''--format=%(upstream:track)'',
                        ''refs/heads/'' @ ''feature'']
              = Completed 0 ''[ahead 1]'' []"
    by (simp add: branch_git_def)
  have bt: "parse_tracking_info (strip ''[ahead 1]'') = Inr (1, 0)" by code_simp
  then have bt': "parse_tracking_info (if (0::int) = 0 then strip ''[ahead 1]'' else [])
                    = Inr (1, 0)"
    by simp
  have bp: "parse_file_stats (strip '' 2 files changed, 20 insertions(+), 3 deletions(-)'')
              = Inr (2, 20, 3)"
    by code_simp
  have bs: "strip '' 2 files changed, 20 insertions(+), 3 deletions(-)''
              = ''2 files changed, 20 insertions(+), 3 deletions(-)''"
    and bl: "strip ''abc123 Add feature'' = ''abc123 Add feature''"
    by code_simp+
  have r: "''origin/main'' \<noteq> []" by simp
  have branch: "get_branch_diff branch_git ''feature'' (Some ''origin/main'') (example_config 8)
       = ([], Ret (Some
            \<lparr>name = ''feature'', upstream = Some ''origin/main'', ahead = 1, behind = 0,
             diff_stat = ''2 files changed, 20 insertions(+), 3 deletions(-)'',
             diff_content = ''abcdefgh'', commit_log = ''abc123 Add feature'',
             files_changed = 2, insertions = 20, deletions = 3\<rparr>))"
    using t[THEN conjunct2, THEN conjunct2, THEN conjunct2, THEN conjunct2, THEN conjunct2,
            THEN conjunct1, rule_format,
            OF conjI[OF r conjI[OF b1 conjI[OF b2 conjI[OF tr conjI[OF b3 conjI[OF b4 bt']]]]]],
            THEN conjunct2, rule_format, OF bp]
    by (simp add: bs bl)
  from s1 s1' s2 s3 tr s4 sn sp staged b1 b2 b3 b4 bt bp branch show ?thesis
    by - (intro conjI; assumption)
qed

section \<open>The default configuration\<close>

text \<open>
  Claim C4, as the code has it. Building a \<open>Config\<close> from the default mapping and reading
  each field back gives the declared defaults: 50000 diff characters, temperature 0.7,
  3 retries, and the commit types feat, fix, docs, style, refactor, test, chore, perf, ci
  and build: ten tags, not nine.
\<close>

theorem default_config_fields:
  "Config_kwargs DEFAULT_CONFIG =
     Ret \<lparr>max_diff_chars = 50000, model = ''claude-sonnet-4-5-20250929'',
          temperature = 7 / 10, max_retries = 3,
          commit_types = [''feat'', ''fix'', ''docs'', ''style'', ''refactor'',
                          ''test'', ''chore'', ''perf'', ''ci'', ''build'']\<rparr>"
  by (simp add: Config_kwargs_def DEFAULT_CONFIG_def field_names_def)

text \<open>
  The claim as it was stated fails on the last field: the commit types of the \<open>Config\<close>
  built from the default mapping contain \<open>build\<close>, which is none of the nine tags.
\<close>

theorem default_commit_types_not_nine:
  "Config_kwargs DEFAULT_CONFIG =
     Ret \<lparr>max_diff_chars = 50000, model = ''claude-sonnet-4-5-20250929'',
          temperature = 7 / 10, max_retries = 3,
          commit_types = [''feat'', ''fix'', ''docs'', ''style'', ''refactor'',
                          ''test'', ''chore'', ''perf'', ''ci'', ''build'']\<rparr>
   \<and> ''build'' \<in> set (commit_types
         \<lparr>max_diff_chars = 50000, model = ''claude-sonnet-4-5-20250929'',
          temperature = 7 / 10, max_retries = 3,
          commit_types = [''feat'', ''fix'', ''docs'', ''style'', ''refactor'',
                          ''test'', ''chore'', ''perf'', ''ci'', ''build'']\<rparr>)
   \<and> ''build'' \<notin> set [''feat'', ''fix'', ''docs'', ''style'', ''refactor'',
                          ''test'', ''chore'', ''perf'', ''ci'']
   \<and> set (commit_types
         \<lparr>max_diff_chars = 50000, model = ''claude-sonnet-4-5-20250929'',
          temperature = 7 / 10, max_retries = 3,
          commit_types = [''feat'', ''fix'', ''docs'', ''style'', ''refactor'',
                          ''test'', ''chore'', ''perf'', ''ci'', ''build'']\<rparr>)
       \<noteq> set [''feat'', ''fix'', ''docs'', ''style'', ''refactor'',
                ''test'', ''chore'', ''perf'', ''ci'']"
proof -
  let ?ten = "[''feat'', ''fix'', ''docs'', ''style'', ''refactor'',
               ''test'', ''chore'', ''perf'', ''ci'', ''build'']"
  let ?nine = "[''feat'', ''fix'', ''docs'', ''style'', ''refactor'',
                ''test'', ''chore'', ''perf'', ''ci'']"
  have a: "''build'' \<in> set ?ten" by simp
  have b: "''build'' \<notin> set ?nine" by simp
  from a b have "set ?ten \<noteq> set ?nine" by (rule_tac notI) (simp only:)
  with a b show ?thesis
    by (simp add: Config_kwargs_def DEFAULT_CONFIG_def field_names_def)
qed

section \<open>Loading the configuration\<close>

lemma dict_update_frame:
  "length (dict_update st a items) = length st
   \<and> (b \<noteq> a \<longrightarrow> dict_update st a items ! b = st ! b)"
  by (simp add: dict_update_def)

lemma load_first_frame:
  "length (snd (load_first files st a ps)) = length st
   \<and> (b \<noteq> a \<longrightarrow> snd (load_first files st a ps) ! b = st ! b)"
proof (induction ps arbitrary: st)
  case Nil
  then show ?case by simp
next
  case (Cons p ps)
  show ?case
  proof (cases "files p")
    case Absent
    with Cons show ?thesis by simp
  next
    case Unreadable
    with Cons[of st] show ?thesis by (auto split: prod.splits)
  next
    case (Holds doc)
    show ?thesis
    proof (cases doc)
      case Falsy
      with Holds Cons show ?thesis by simp
    next
      case (Updates items)
      with Holds show ?thesis by (simp add: dict_update_frame)
    next
      case (UpdateFails items)
      with Holds Cons[of "dict_update st a items"] show ?thesis
        by (auto simp: dict_update_frame split: prod.splits)
    qed
  qed
qed

lemma load_first_absent:
  "\<forall>p \<in> set ps. files p = Absent \<Longrightarrow> load_first files st a ps = ([], st)"
  by (induction ps) auto

lemma get_repo_root_cases:
  "get_repo_root git = ([Print GitNotFound], Exit 1)
   \<or> (\<exists>r. get_repo_root git = ([], Ret r))"
  by (auto simp: get_repo_root_def run_git_def subprocess_run_def io_bind_def io_ret_def
        io_then_def io_print_def io_exit_def io_after_def split: proc.splits)

lemma get_repo_root_installed:
  "git [''rev-parse'', ''--show-toplevel''] \<noteq> NotInstalled \<Longrightarrow>
     \<exists>r. get_repo_root git = ([], Ret r)"
  by (auto simp: get_repo_root_def run_git_def subprocess_run_def io_bind_def io_ret_def
        io_then_def io_print_def io_exit_def io_after_def split: proc.splits)

lemma load_config_frame:
  assumes "DEFAULT_ADDR < length st"
  shows "length (fst (load_config y git home files st)) = Suc (length st)
         \<and> fst (load_config y git home files st) ! DEFAULT_ADDR = st ! DEFAULT_ADDR"
proof -
  let ?st1 = "st @ [st ! DEFAULT_ADDR]"
  have a: "DEFAULT_ADDR \<noteq> length st" using assms by simp
  have s1: "?st1 ! DEFAULT_ADDR = st ! DEFAULT_ADDR" using assms by (simp add: nth_append)
  have fr: "\<And>ps. length (snd (load_first files ?st1 (length st) ps)) = Suc (length st)
               \<and> snd (load_first files ?st1 (length st) ps) ! DEFAULT_ADDR = st ! DEFAULT_ADDR"
    using load_first_frame[of files ?st1 "length st" _ DEFAULT_ADDR] a s1 by simp
  show ?thesis
  proof (cases y)
    case False
    then show ?thesis using s1 by (simp add: load_config_def dict_copy_def)
  next
    case True
    from get_repo_root_cases[of git] show ?thesis
    proof
      assume "get_repo_root git = ([Print GitNotFound], Exit 1)"
      then show ?thesis using s1 by (simp add: load_config_def dict_copy_def)
    next
      assume "\<exists>r. get_repo_root git = ([], Ret r)"
      then obtain r where r: "get_repo_root git = ([], Ret r)" ..
      let ?ps = "(if is_set r then [(the r, config_file_name)] else [])
                 @ [(home, config_file_name)]"
      obtain es' st2 where lf: "load_first files ?st1 (length st) ?ps = (es', st2)"
        by (cases "load_first files ?st1 (length st) ?ps") auto
      with fr[of ?ps] have "length st2 = Suc (length st) \<and> st2 ! DEFAULT_ADDR = st ! DEFAULT_ADDR"
        by simp
      with True r lf show ?thesis
        by (simp add: load_config_def dict_copy_def Let_def)
    qed
  qed
qed

lemma load_many_frame:
  "DEFAULT_ADDR < length st \<Longrightarrow> load_many loads st ! DEFAULT_ADDR = st ! DEFAULT_ADDR"
proof (induction loads arbitrary: st)
  case Nil
  then show ?case by simp
next
  case (Cons l loads)
  obtain y git home files where l: "l = (y, git, home, files)" by (cases l) auto
  let ?st' = "fst (load_config y git home files st)"
  from Cons.prems have f: "length ?st' = Suc (length st)" "?st' ! DEFAULT_ADDR = st ! DEFAULT_ADDR"
    using load_config_frame[of st y git home files] by simp_all
  with Cons.prems have "DEFAULT_ADDR < length ?st'" by simp
  then have "load_many loads ?st' ! DEFAULT_ADDR = ?st' ! DEFAULT_ADDR" by (rule Cons.IH)
  with f show ?case by (simp add: l)
qed

lemma load_config_no_override:
  assumes "DEFAULT_ADDR < length st"
    and "\<forall>dir. files (dir, config_file_name) = Absent"
    and "y \<longrightarrow> git [''rev-parse'', ''--show-toplevel''] \<noteq> NotInstalled"
  shows "snd (load_config y git home files st) = ([], Config_kwargs (st ! DEFAULT_ADDR))"
proof (cases y)
  case False
  then show ?thesis by (simp add: load_config_def dict_copy_def)
next
  case True
  with assms(3) obtain r where r: "get_repo_root git = ([], Ret r)"
    using get_repo_root_installed by blast
  let ?ps = "(if is_set r then [(the r, config_file_name)] else []) @ [(home, config_file_name)]"
  have "\<forall>p \<in> set ?ps. files p = Absent" using assms(2) by simp
  then have "load_first files (st @ [st ! DEFAULT_ADDR]) (length st) ?ps
               = ([], st @ [st ! DEFAULT_ADDR])"
    by (rule load_first_absent)
  with True r show ?thesis
    by (simp add: load_config_def dict_copy_def Let_def)
qed

text \<open>
  Claim C10. Loading the configuration never changes the module's default mapping:
  \<open>load_config\<close> works on a copy, so after any sequence of loads, with or without an override
  file applied, the default mapping holds its original values; and loading with no override
  file present gives a \<open>Config\<close> equal to the defaults.

  The default mapping is the object at \<open>DEFAULT_ADDR\<close> of the store. The last part holds
  whenever \<open>load_config\<close> returns at all: it asks git for the repository root when the YAML
  library is available, and a missing git binary ends the process there (\<open>main\<close>, its only
  caller, has run git before).
\<close>

theorem load_config_keeps_defaults:
  "(\<forall>loads st. DEFAULT_ADDR < length st \<longrightarrow>
       load_many loads st ! DEFAULT_ADDR = st ! DEFAULT_ADDR)
   \<and> (\<forall>yaml_available git home files st. DEFAULT_ADDR < length st \<longrightarrow>
         fst (load_config yaml_available git home files st) ! DEFAULT_ADDR = st ! DEFAULT_ADDR)
   \<and> (\<forall>yaml_available git home files st.
         DEFAULT_ADDR < length st \<and> st ! DEFAULT_ADDR = DEFAULT_CONFIG
         \<and> (\<forall>dir. files (dir, config_file_name) = Absent)
         \<and> (yaml_available \<longrightarrow> git [''rev-parse'', ''--show-toplevel''] \<noteq> NotInstalled)
         \<longrightarrow> snd (load_config yaml_available git home files st)
               = ([], Config_kwargs DEFAULT_CONFIG))"
  using load_many_frame load_config_frame load_config_no_override
  by (intro conjI allI impI) simp_all


theorem load_config_keeps_defaults_witness:
  "DEFAULT_ADDR < length [DEFAULT_CONFIG]
   \<and> snd (load_config True branch_git ''/home/u'' override_files [DEFAULT_CONFIG])
       = ([Print (LoadedConfig (''/home/u'', ''.git-commit-agent.yaml''))],
          Ret \<lparr>max_diff_chars = 50000, model = ''claude-sonnet-4-5-20250929'',
               temperature = 7 / 10, max_retries = 5,
               commit_types = [''feat'', ''fix'', ''docs'', ''style'', ''refactor'',
                               ''test'', ''chore'', ''perf'', ''ci'', ''build'']\<rparr>)
   \<and> load_many [(True, branch_git, ''/home/u'', override_files),
                 (False, branch_git, ''/home/u'', override_files)] [DEFAULT_CONFIG]
         ! DEFAULT_ADDR = DEFAULT_CONFIG
   \<and> branch_git [''rev-parse'', ''--show-toplevel''] \<noteq> NotInstalled
   \<and> snd (load_config True branch_git ''/home/u'' no_files [DEFAULT_CONFIG])
       = ([], Config_kwargs DEFAULT_CONFIG)"
proof -
  have h1: "DEFAULT_ADDR < length [DEFAULT_CONFIG]" by (simp add: DEFAULT_ADDR_def)
  have h2: "[DEFAULT_CONFIG] ! DEFAULT_ADDR = DEFAULT_CONFIG" by (simp add: DEFAULT_ADDR_def)
  have h3: "\<forall>dir. no_files (dir, config_file_name) = Absent" by (simp add: no_files_def)
  have h4: "branch_git [''rev-parse'', ''--show-toplevel''] \<noteq> NotInstalled"
    by (simp add: branch_git_def)
  have root: "get_repo_root branch_git = ([], Ret (Some []))"
    by (simp add: get_repo_root_def run_git_def subprocess_run_def branch_git_def io_bind_def
          io_ret_def io_after_def strip_def)
  have ov: "snd (load_config True branch_git ''/home/u'' override_files [DEFAULT_CONFIG])
       = ([Print (LoadedConfig (''/home/u'', ''.git-commit-agent.yaml''))],
          Ret \<lparr>max_diff_chars = 50000, model = ''claude-sonnet-4-5-20250929'',
               temperature = 7 / 10, max_retries = 5,
               commit_types = [''feat'', ''fix'', ''docs'', ''style'', ''refactor'',
                               ''test'', ''chore'', ''perf'', ''ci'', ''build'']\<rparr>)"
    by (simp add: load_config_def dict_copy_def root is_set_def config_file_name_def
          override_files_def dict_update_def DEFAULT_ADDR_def DEFAULT_CONFIG_def
          Config_kwargs_def field_names_def)
  note t = load_config_keeps_defaults
  have "load_many [(True, branch_git, ''/home/u'', override_files),
                 (False, branch_git, ''/home/u'', override_files)] [DEFAULT_CONFIG]
         ! DEFAULT_ADDR = [DEFAULT_CONFIG] ! DEFAULT_ADDR"
    by (rule t[THEN conjunct1, rule_format, OF h1])
  then have many: "load_many [(True, branch_git, ''/home/u'', override_files),
                 (False, branch_git, ''/home/u'', override_files)] [DEFAULT_CONFIG]
         ! DEFAULT_ADDR = DEFAULT_CONFIG"
    by (simp only: h2)
  have c: "DEFAULT_ADDR < length [DEFAULT_CONFIG]
           \<and> [DEFAULT_CONFIG] ! DEFAULT_ADDR = DEFAULT_CONFIG
           \<and> (\<forall>dir. no_files (dir, config_file_name) = Absent)
           \<and> (True \<longrightarrow> branch_git [''rev-parse'', ''--show-toplevel''] \<noteq> NotInstalled)"
    using h1 h2 h3 h4 by - (intro conjI impI; assumption)
  have "snd (load_config True branch_git ''/home/u'' no_files [DEFAULT_CONFIG])
       = ([], Config_kwargs DEFAULT_CONFIG)"
    by (rule t[THEN conjunct2, THEN conjunct2, rule_format,
                where st = "[DEFAULT_CONFIG]" and files = no_files and yaml_available = True
                  and git = branch_git and home = "''/home/u''", OF c])
  with h1 ov many h4 show ?thesis by - (intro conjI; assumption)
qed

section \<open>The retry loop and the credential\<close>

lemma io_after_after: "io_after es (io_after es' m) = io_after (es @ es') m"
  by (simp add: io_after_def)

lemma io_after_Nil: "io_after [] m = m"
  by (simp add: io_after_def)

lemma rate_limited_attempts_step:
  "a < n \<Longrightarrow> rate_limited_attempts a n =
     [ApiCall a, Print (RateLimitedWaiting (2 ^ a)), Sleep (2 ^ a)] @ rate_limited_attempts (Suc a) n"
  by (simp add: rate_limited_attempts_def upt_conv_Cons)

lemma retry_loop_rate_limited:
  assumes "\<forall>k. a \<le> k \<and> k < n \<longrightarrow> api k = RateLimitError" and "int n < r" and "a \<le> n"
  shows "retry_loop api r a = io_after (rate_limited_attempts a n) (retry_loop api r n)"
  using assms
proof (induction "n - a" arbitrary: a)
  case 0
  then have "a = n" by simp
  then show ?case by (simp add: rate_limited_attempts_def io_after_Nil)
next
  case (Suc d)
  then have lt: "a < n" by simp
  with Suc.prems have rl: "api a = RateLimitError" by simp
  from lt Suc.prems(2) have c: "int a < r" "int a < r - 1" by simp_all
  have ih: "retry_loop api r (Suc a)
              = io_after (rate_limited_attempts (Suc a) n) (retry_loop api r n)"
    using Suc.hyps Suc.prems lt by (intro Suc.hyps(1)) auto
  have "retry_loop api r a
          = io_after [ApiCall a, Print (RateLimitedWaiting (2 ^ a)), Sleep (2 ^ a)]
              (retry_loop api r (Suc a))"
    using rl c by (subst retry_loop.simps) simp
  then show ?case
    by (simp only: ih io_after_after rate_limited_attempts_step[OF lt])
qed

lemma retry_loop_calls_bound:
  "length (filter is_api_call (fst (retry_loop api r a))) \<le> nat r - a"
proof (induction api r a rule: retry_loop.induct)
  case (1 api r a)
  show ?case
  proof (cases "int a < r")
    case False
    then show ?thesis by (subst retry_loop.simps) (simp add: io_ret_def)
  next
    case True
    then have pos: "Suc (nat r - Suc a) \<le> nat r - a" by linarith
    show ?thesis
    proof (cases "api a")
      case (ApiMessage content)
      show ?thesis
      proof (cases content)
        case Nil
        with 1(1)[OF True ApiMessage] True ApiMessage pos show ?thesis
          by (subst retry_loop.simps) (simp add: io_after_def)
      next
        case (Cons b bs)
        with True ApiMessage pos show ?thesis
          by (subst retry_loop.simps) (cases b; simp add: io_after_def io_ret_def)
      qed
    next
      case RateLimitError
      show ?thesis
      proof (cases "int a < r - 1")
        case T2: True
        with 1(2)[OF True RateLimitError T2] True RateLimitError pos show ?thesis
          by (subst retry_loop.simps) (simp add: io_after_def)
      next
        case False
        with True RateLimitError pos show ?thesis
          by (subst retry_loop.simps) (simp add: io_after_def io_ret_def)
      qed
    next
      case APIError
      with True pos show ?thesis
        by (subst retry_loop.simps) (simp add: io_after_def io_ret_def)
    next
      case OtherException
      with True pos show ?thesis
        by (subst retry_loop.simps) (simp add: io_after_def io_ret_def)
    qed
  qed
qed

lemma retry_loop_api_error:
  "int n < r \<Longrightarrow> api n = APIError \<Longrightarrow>
     retry_loop api r n = ([ApiCall n, Print ApiErrorReport], Ret None)"
  by (subst retry_loop.simps) (simp add: io_after_def io_ret_def)

lemma retry_loop_last_rate_limited:
  "int n < r \<Longrightarrow> \<not> int n < r - 1 \<Longrightarrow> api n = RateLimitError \<Longrightarrow>
     retry_loop api r n = ([ApiCall n, Print RateLimitExceeded], Ret None)"
  by (subst retry_loop.simps) (simp add: io_after_def io_ret_def)

text \<open>
  Claim C5. On a rate-limit signal from the generation API the message generator retries
  up to \<open>max_retries\<close> times, with a delay of \<open>2 ^ attempt\<close> seconds between attempts, and
  yields no message when the attempts are exhausted; any other API-level error ends the
  attempt at once, with no retry and no message.

  With the credential present: the service is called at most \<open>max_retries\<close> times in all
  (the first attempt included). When every call is rate limited, the calls are the attempts
  \<open>0, \<dots>, max_retries - 1\<close>, attempt \<open>k\<close> is followed by a sleep of \<open>2 ^ k\<close> seconds except the
  last, after which the exhaustion is reported and no message is returned. When the
  attempts before \<open>n\<close> are rate limited and attempt \<open>n\<close> raises another API error, the trace
  ends with that call and its report, and no message is returned.
\<close>

theorem rate_limit_retry_policy:
  assumes "is_set (environ ''ANTHROPIC_API_KEY'')"
  shows "length (filter is_api_call (fst (generate_commit_message environ api info config)))
           \<le> nat (max_retries config)
         \<and> (0 < max_retries config
              \<and> (\<forall>k < nat (max_retries config). api k = RateLimitError) \<longrightarrow>
             generate_commit_message environ api info config
               = (rate_limited_attempts 0 (nat (max_retries config) - 1)
                    @ [ApiCall (nat (max_retries config) - 1), Print RateLimitExceeded],
                  Ret None))
         \<and> (\<forall>n. int n < max_retries config \<and> (\<forall>k < n. api k = RateLimitError)
                  \<and> api n = APIError \<longrightarrow>
             generate_commit_message environ api info config
               = (rate_limited_attempts 0 n @ [ApiCall n, Print ApiErrorReport], Ret None))"
proof (intro conjI allI impI)
  let ?r = "max_retries config"
  have g: "generate_commit_message environ api info config = retry_loop api ?r 0"
    using assms by (simp add: generate_commit_message_def)
  show "length (filter is_api_call (fst (generate_commit_message environ api info config)))
          \<le> nat ?r"
    using retry_loop_calls_bound[of api ?r 0] by (simp add: g)
  {
    assume h: "0 < ?r \<and> (\<forall>k < nat ?r. api k = RateLimitError)"
    let ?n = "nat ?r - 1"
    from h have n: "int ?n < ?r" "\<not> int ?n < ?r - 1" "api ?n = RateLimitError" by auto
    from h have "\<forall>k. 0 \<le> k \<and> k < ?n \<longrightarrow> api k = RateLimitError" by auto
    then have "retry_loop api ?r 0 = io_after (rate_limited_attempts 0 ?n) (retry_loop api ?r ?n)"
      using n(1) by (intro retry_loop_rate_limited) auto
    also have "retry_loop api ?r ?n = ([ApiCall ?n, Print RateLimitExceeded], Ret None)"
      using n by (rule retry_loop_last_rate_limited)
    finally show "generate_commit_message environ api info config
               = (rate_limited_attempts 0 ?n @ [ApiCall ?n, Print RateLimitExceeded], Ret None)"
      by (simp add: g io_after_def)
  }
  {
    fix n
    assume h: "int n < ?r \<and> (\<forall>k < n. api k = RateLimitError) \<and> api n = APIError"
    then have "\<forall>k. 0 \<le> k \<and> k < n \<longrightarrow> api k = RateLimitError" by auto
    then have "retry_loop api ?r 0 = io_after (rate_limited_attempts 0 n) (retry_loop api ?r n)"
      using h by (intro retry_loop_rate_limited) auto
    also have "retry_loop api ?r n = ([ApiCall n, Print ApiErrorReport], Ret None)"
      using h by (intro retry_loop_api_error) auto
    finally show "generate_commit_message environ api info config
               = (rate_limited_attempts 0 n @ [ApiCall n, Print ApiErrorReport], Ret None)"
      by (simp add: g io_after_def)
  }
qed


theorem rate_limit_retry_policy_witness:
  "is_set (key_environ ''ANTHROPIC_API_KEY'')
   \<and> 0 < max_retries (example_config 8)
   \<and> generate_commit_message key_environ always_rate_limited example_info (example_config 8)
       = ([ApiCall 0, Print (RateLimitedWaiting 1), Sleep 1,
           ApiCall 1, Print (RateLimitedWaiting 2), Sleep 2,
           ApiCall 2, Print RateLimitExceeded], Ret None)
   \<and> error_after_one 1 = APIError
   \<and> generate_commit_message key_environ error_after_one example_info (example_config 8)
       = ([ApiCall 0, Print (RateLimitedWaiting 1), Sleep 1,
           ApiCall 1, Print ApiErrorReport], Ret None)"
proof -
  have k: "is_set (key_environ ''ANTHROPIC_API_KEY'')"
    by (simp add: key_environ_def is_set_def)
  have r: "max_retries (example_config 8) = 3" by (simp add: example_config_def)
  have w2: "rate_limited_attempts 0 2
              = [ApiCall 0, Print (RateLimitedWaiting 1), Sleep 1,
                 ApiCall 1, Print (RateLimitedWaiting 2), Sleep 2]"
    by (simp add: rate_limited_attempts_def upt_conv_Cons)
  have w1: "rate_limited_attempts 0 1 = [ApiCall 0, Print (RateLimitedWaiting 1), Sleep 1]"
    by (simp add: rate_limited_attempts_def)
  note t1 = rate_limit_retry_policy[where environ = key_environ and api = always_rate_limited
              and info = example_info and config = "example_config 8", OF k, unfolded r]
  note t2 = rate_limit_retry_policy[where environ = key_environ and api = error_after_one
              and info = example_info and config = "example_config 8", OF k, unfolded r]
  have a: "(0::int) < 3 \<and> (\<forall>k < nat 3. always_rate_limited k = RateLimitError)"
    by (simp add: always_rate_limited_def)
  have "generate_commit_message key_environ always_rate_limited example_info (example_config 8)
          = (rate_limited_attempts 0 (nat 3 - 1)
               @ [ApiCall (nat 3 - 1), Print RateLimitExceeded], Ret None)"
    by (rule t1[THEN conjunct2, THEN conjunct1, rule_format, OF a])
  then have g1: "generate_commit_message key_environ always_rate_limited example_info
                   (example_config 8)
       = ([ApiCall 0, Print (RateLimitedWaiting 1), Sleep 1,
           ApiCall 1, Print (RateLimitedWaiting 2), Sleep 2,
           ApiCall 2, Print RateLimitExceeded], Ret None)"
    by (simp add: w2)
  have e: "error_after_one 1 = APIError" by (simp add: error_after_one_def)
  have b: "int 1 < 3 \<and> (\<forall>k < 1. error_after_one k = RateLimitError)
           \<and> error_after_one 1 = APIError"
    by (simp add: error_after_one_def)
  have "generate_commit_message key_environ error_after_one example_info (example_config 8)
          = (rate_limited_attempts 0 1 @ [ApiCall 1, Print ApiErrorReport], Ret None)"
    by (rule t2[THEN conjunct2, THEN conjunct2, rule_format, OF b])
  then have g2: "generate_commit_message key_environ error_after_one example_info
                   (example_config 8)
       = ([ApiCall 0, Print (RateLimitedWaiting 1), Sleep 1,
           ApiCall 1, Print ApiErrorReport], Ret None)"
    by (simp only: w1 append_Cons append_Nil)
  from k r g1 e g2 show ?thesis by simp
qed

text \<open>
  Claim C7. When the credential variable is absent from the process environment, the
  message generator detects it before any network call and yields no message, reporting a
  configuration error rather than an API error.

  The two lines printed are the ones about the missing variable; there is no call of the
  service and no API error report. An empty value is treated like an absent one.
\<close>

theorem missing_credential_no_call:
  assumes "environ ''ANTHROPIC_API_KEY'' = None \<or> environ ''ANTHROPIC_API_KEY'' = Some []"
  shows "generate_commit_message environ api info config
           = ([Print MissingApiKey, Print ApiKeyHint], Ret None)
         \<and> filter is_api_call (fst (generate_commit_message environ api info config)) = []
         \<and> Print ApiErrorReport \<notin> set (fst (generate_commit_message environ api info config))"
  using assms by (auto simp: generate_commit_message_def is_set_def io_after_def io_ret_def)

theorem missing_credential_no_call_witness:
  "Map.empty ''ANTHROPIC_API_KEY'' = (None :: string option)
   \<and> generate_commit_message Map.empty always_rate_limited example_info (example_config 8)
       = ([Print MissingApiKey, Print ApiKeyHint], Ret None)"
proof -
  have h: "Map.empty ''ANTHROPIC_API_KEY'' = (None :: string option)" by simp
  from missing_credential_no_call[where environ = Map.empty and api = always_rate_limited
         and info = example_info and config = "example_config 8", OF disjI1[OF h]] h
  show ?thesis by (elim conjE) (intro conjI; assumption)
qed

section \<open>The named branch and its upstream\<close>

lemma split_on_nonempty: "split_on sep s \<noteq> []"
  by (induction s) (auto split: list.splits)

lemma run_git_checked_failure:
  "git args = Completed rc out err \<Longrightarrow> rc \<noteq> 0 \<Longrightarrow>
     run_git git args True = ([], Ret (False, if err \<noteq> [] then strip err else []))"
  by (simp add: run_git_def subprocess_run_def io_ret_def)

lemma run_git_checked_success:
  "git args = Completed 0 out err \<Longrightarrow> run_git git args True = ([], Ret (True, strip out))"
  by (simp add: run_git_def subprocess_run_def io_ret_def)

lemma run_git_unchecked:
  "run_git git args False = (es, Ret (ok, out)) \<Longrightarrow> ok"
  by (auto simp: run_git_def subprocess_run_def io_ret_def io_then_def io_bind_def io_print_def
        io_exit_def io_after_def split: proc.splits)

lemma io_then_print: "io_then (io_print m) k = io_after [Print m] k"
  by (simp add: io_then_def io_print_def io_bind_def)

lemma io_then_ret: "io_then (io_ret ()) k = k"
  by (simp add: io_then_def io_ret_def io_bind_ret)

text \<open>
  What the block does with the answer of the branch lookup: a lookup that git fails (a
  return code other than 0) ends the process with status 1 and the report that the branch
  was not found; a lookup that succeeds with a tracking field whose ahead count is 0 ends
  it with status 0 and the note that nothing is unpushed.
\<close>

lemma named_branch_lookup:
  "(\<forall>git environ api config branch json rc out err.
      git [''for-each-ref'', ''--format=%(upstream:short)|%(upstream:track)'',
           ''refs/heads/'' @ branch] = Completed rc out err \<and> rc \<noteq> 0 \<longrightarrow>
      main_branch git environ api config branch json
        = ((if json then [] else [Print (AnalyzingBranch branch)])
             @ [Print (BranchNotFound branch)], Exit 1))
   \<and> (\<forall>git environ api config branch json out err b.
        git [''for-each-ref'', ''--format=%(upstream:short)|%(upstream:track)'',
             ''refs/heads/'' @ branch] = Completed 0 out err
        \<and> parse_tracking_info
              (if length (split_on CHR ''|'' (strip out)) > 1
               then split_on CHR ''|'' (strip out) ! 1 else []) = Inr (0, b) \<longrightarrow>
        main_branch git environ api config branch json
          = ((if json then [] else [Print (AnalyzingBranch branch)])
               @ [Print (NoUnpushedCommits branch)], Exit 0))"
proof (intro conjI allI impI)
  fix git :: git_env and environ :: "string \<rightharpoonup> string" and api :: api and config :: Config
    and branch :: string and json :: bool and rc :: int and out err :: string
  assume "git [''for-each-ref'', ''--format=%(upstream:short)|%(upstream:track)'',
           ''refs/heads/'' @ branch] = Completed rc out err \<and> rc \<noteq> 0"
  then have "run_git git [''for-each-ref'', ''--format=%(upstream:short)|%(upstream:track)'',
           ''refs/heads/'' @ branch] True = ([], Ret (False, if err \<noteq> [] then strip err else []))"
    by (intro run_git_checked_failure) auto
  then show "main_branch git environ api config branch json
        = ((if json then [] else [Print (AnalyzingBranch branch)])
             @ [Print (BranchNotFound branch)], Exit 1)"
    by (cases json)
      (simp_all add: main_branch_def io_bind_ret io_then_print io_then_ret io_after_def
         io_exit_def)
next
  fix git :: git_env and environ :: "string \<rightharpoonup> string" and api :: api and config :: Config
    and branch :: string and json :: bool and out err :: string and b :: int
  assume h: "git [''for-each-ref'', ''--format=%(upstream:short)|%(upstream:track)'',
             ''refs/heads/'' @ branch] = Completed 0 out err
        \<and> parse_tracking_info
              (if length (split_on CHR ''|'' (strip out)) > 1
               then split_on CHR ''|'' (strip out) ! 1 else []) = Inr (0, b)"
  then have "run_git git [''for-each-ref'', ''--format=%(upstream:short)|%(upstream:track)'',
           ''refs/heads/'' @ branch] True = ([], Ret (True, strip out))"
    by (intro run_git_checked_success) auto
  moreover from h have
    "parse_tracking_info
       (if length (split_on CHR ''|'' (strip out)) > 1
        then split_on CHR ''|'' (strip out) ! 1 else []) = Inr (0, b)"
    by (rule conjunct2)
  ultimately show "main_branch git environ api config branch json
          = ((if json then [] else [Print (AnalyzingBranch branch)])
               @ [Print (NoUnpushedCommits branch)], Exit 0)"
    by (cases json)
      (simp_all add: main_branch_def Let_def io_bind_ret io_bind_lift_Inr io_then_print
         io_then_ret io_after_def io_exit_def)
qed


text \<open>
  With \<open>check\<close> false, \<open>run_git\<close> reports success for every process that completes. So the
  branch of \<open>get_branch_diff\<close> that tries the candidate list is never taken: without an
  upstream, the upstream is whatever \<open>symbolic-ref\<close> printed, the empty text included.
\<close>

lemma fallback_unreachable:
  assumes "\<not> is_set u"
  shows "find_upstream git u
           = io_bind (run_git git [''symbolic-ref'', ''refs/remotes/origin/HEAD''] False)
               (\<lambda>(success, default_branch).
                  io_ret (Some (replace_all ''refs/remotes/'' [] default_branch)))"
proof (cases "git [''symbolic-ref'', ''refs/remotes/origin/HEAD'']")
  case NotInstalled
  with assms show ?thesis
    by (simp add: find_upstream_def run_git_def subprocess_run_def io_bind_def io_then_def
          io_print_def io_exit_def io_after_def)
next
  case (Completed rc out err)
  with assms show ?thesis
    by (simp add: find_upstream_def run_git_def subprocess_run_def io_bind_ret io_ret_def)
qed

text \<open>
  Claim C6. In \<open>--branch\<close> mode the program exits non-zero when the named branch does not
  exist, and treats a named branch with zero commits ahead of its upstream as an
  informational no-op with exit status 0.

  For a pattern that matches no ref, \<open>git for-each-ref\<close> prints nothing and returns 0. At
  that answer the lookup counts as a success, the empty output parses to zero commits ahead,
  and the block reports that the branch has no unpushed commits and exits with status 0:
  the path that reports a branch as not found is not taken.
\<close>

theorem missing_branch_exits_zero:
  "missing_branch_git [''for-each-ref'', ''--format=%(upstream:short)|%(upstream:track)'',
                       ''refs/heads/nope''] = Completed 0 [] []
   \<and> main_branch missing_branch_git key_environ always_rate_limited (example_config 8)
         ''nope'' False
       = ([Print (AnalyzingBranch ''nope''), Print (NoUnpushedCommits ''nope'')], Exit 0)"
  by code_simp

text \<open>
  Claim C8. In branch mode with no upstream supplied, the upstream is resolved by trying,
  in order, the remote's symbolic default-branch reference, then the first of
  \<open>origin/main\<close>, \<open>origin/master\<close>, \<open>main\<close>, \<open>master\<close> that resolves; if none resolves the
  operation returns no result, the branch being skipped with a warning.

  In \<open>fallback_git\<close> the symbolic reference is not set (git returns 128 and prints nothing
  on its standard output) and \<open>origin/main\<close> resolves. The candidate loop, run on its own,
  finds \<open>origin/main\<close>; \<open>get_branch_diff\<close> does not reach it, warns that there is no upstream
  and returns nothing, although with \<open>origin/main\<close> as upstream it collects the branch.
\<close>

theorem fallback_candidates_not_tried:
  "run_git fallback_git [''symbolic-ref'', ''refs/remotes/origin/HEAD''] False
     = ([], Ret (True, []))
   \<and> run_git fallback_git [''rev-parse'', ''--verify'', ''origin/main''] False
     = ([], Ret (True, ''4b825dc642cb6eb9a060e54bf8d69288fbee4904''))
   \<and> try_candidates fallback_git None [''origin/main'', ''origin/master'', ''main'', ''master'']
     = ([], Ret (Some ''origin/main''))
   \<and> get_branch_diff fallback_git ''feature'' None (example_config 8)
     = ([Print (NoUpstreamWarning ''feature'')], Ret None)
   \<and> get_branch_diff fallback_git ''feature'' (Some ''origin/main'') (example_config 8)
     = ([], Ret (Some example_info))"
  by code_simp

end
